theory Spec2Isabelle
  imports Complex_Main
begin

section \<open>Numbers\<close>

text \<open>
  The Python code computes with floats, which are IEEE doubles. In the model a double is
  the rational number it denotes, and every operation of the usage evaluation is the
  exact operation followed by \<open>nearest_double\<close>: the nearest number with 53 significant
  bits, a tie going to the even one. For magnitudes from \<open>2^-1022\<close> up to \<open>2^1024\<close> this
  is what the machine does. Smaller results (subnormal numbers), infinities and \<open>nan\<close>
  are outside the model. Python's builtin \<open>round\<close> rounds a tie to the even neighbour.
\<close>

definition py_round :: "rat \<Rightarrow> int" where
  \<comment> \<open>\<open>round(x)\<close>: the nearest integer, a tie going to the even one.\<close>
  "py_round x =
     (let f = \<lfloor>x\<rfloor>; d = x - of_int f
      in if d < 1 / 2 then f
         else if 1 / 2 < d then f + 1
         else if even f then f else f + 1)"

function bit_length :: "int \<Rightarrow> int" where
  \<comment> \<open>the number of binary digits of a positive integer\<close>
  "bit_length n = (if n \<le> 0 then 0 else 1 + bit_length (n div 2))"
  by pat_completeness auto
termination
  by (relation "measure nat") auto

declare bit_length.simps [simp del]

definition binary_exponent :: "rat \<Rightarrow> int" where
  \<comment> \<open>for \<open>x\<close> other than 0, the \<open>e\<close> with \<open>2^e \<le> |x| < 2^(e+1)\<close>\<close>
  "binary_exponent x =
     (let (p, q) = quotient_of \<bar>x\<bar>;
          k = bit_length p - bit_length q
      in if power_int 2 k \<le> \<bar>x\<bar> then k else k - 1)"

definition nearest_double :: "rat \<Rightarrow> rat" where
  \<comment> \<open>rounding to 53 significant bits: the integer nearest to \<open>x / 2^e\<close>, a tie to
      the even one, for the \<open>e\<close> that puts \<open>|x| / 2^e\<close> between \<open>2^52\<close> and \<open>2^53\<close>\<close>
  "nearest_double x =
     (if x = 0 then 0
      else (let e = binary_exponent x - 52
            in of_int (py_round (x / power_int 2 e)) * power_int 2 e))"

definition py_round2 :: "rat \<Rightarrow> rat" where
  \<comment> \<open>\<open>round(x, 2)\<close> of a double: the exact value is rounded to the nearest multiple of
      1/100, a tie to the even one, and the double nearest to that decimal is returned\<close>
  "py_round2 x = nearest_double (of_int (py_round (x * 100)) / 100)"

text \<open>
  The exceptions the code can meet: Python's own \<open>ZeroDivisionError\<close>,
  \<open>OverflowError\<close>, \<open>KeyError\<close> (with the key) and \<open>IndexError\<close>, the \<open>Exception\<close> that
  \<open>validate_credentials_and_instance\<close> raises for an instance id that is not listed
  (with the id), and \<open>Raised s\<close> for whatever a remote call or a transport raises,
  \<open>s\<close> being its \<open>str(e)\<close>.
\<close>

datatype exn =
    ZeroDivisionError
  | OverflowError
  | KeyError string
  | IndexError
  | InstanceIdMissing string
  | Raised string

section \<open>Usage evaluation\<close>

text \<open>
  \<open>aliyun_cdt_check.py\<close> line 385 and \<open>dailyjob.py\<close> line 84, the same expression:
  \<open>round((traffic / account['maxTraffic']) * 100, 2)\<close>. Python's \<open>/\<close> raises
  \<open>ZeroDivisionError\<close> when the divisor is zero. \<open>traffic\<close> is a double (or the
  integer 0). The quota is a JSON number: a double, or an integer, which the division
  first converts to the nearest double; \<open>nearest_double\<close> does that, and leaves a double
  as it is. The quota is taken to be below \<open>2^1024\<close> in magnitude. The quotient is
  rounded to a double, then the product with 100, then \<open>round(..., 2)\<close> is applied.
\<close>

definition usage_percentage :: "rat \<Rightarrow> rat \<Rightarrow> exn + rat" where
  "usage_percentage traffic maxTraffic =
     (if maxTraffic = 0 then Inl ZeroDivisionError
      else Inr (py_round2
                  (nearest_double
                     (nearest_double (traffic / nearest_double maxTraffic) * 100))))"

section \<open>The progress bar of the daily digest\<close>

text \<open>
  \<open>dailyjob.py\<close> lines 102 to 117, inside \<open>send_daily_notification\<close>. The two cell
  characters (a black and a white square) are the two constructors of \<open>cell\<close>.
  \<open>progress_do_num\<close> is the number of filled cells; Python's \<open>s * n\<close> is the empty
  string for a negative \<open>n\<close>, which \<open>nat\<close> gives too.
\<close>

datatype cell = Filled | Hollow

definition progress_do_num :: "rat \<Rightarrow> int" where
  "progress_do_num usage =
     (let progress_val = py_round usage;
          progress_all_num = 20
      in if 0 < usage \<and> usage < 1 then 1
         else if progress_val = 0 then 0
         else if 95 < progress_val \<and> usage < 100 then progress_all_num - 1
         else min progress_all_num
                (py_round (1 / 2 + (of_int (progress_all_num * progress_val)) / 100)))"

definition progress_bar :: "rat \<Rightarrow> cell list" where
  "progress_bar usage =
     (let progress_all_num = 20;
          progress_do_num = progress_do_num usage;
          progress_undo_num = progress_all_num - progress_do_num
      in replicate (nat progress_do_num) Filled @ replicate (nat progress_undo_num) Hollow)"

section \<open>Configuration and remote services\<close>

text \<open>
  An account is an entry of \<open>config['Accounts']\<close>. \<open>accountName\<close> is read with
  \<open>.get\<close>, so it may be absent; the other keys are subscripted. \<open>maxTraffic\<close> is a JSON
  number, in GB.
\<close>

record account =
  accountName :: "string option"
  AccessKeyId :: string
  AccessKeySecret :: string
  regionId :: string
  instanceId :: string
  maxTraffic :: rat

text \<open>
  \<open>config['Notification']\<close>. The \<open>enable...\<close> flags are read with \<open>.get\<close> (absent is
  false). The keys that \<open>send_notification\<close> subscripts while it builds the arguments of a
  channel are options here: \<open>None\<close> is an absent key, and the subscript raises
  \<open>KeyError\<close>. The keys of the mail channel are read inside the \<open>try\<close> of
  \<open>send_email_notification\<close> and are part of what that transport does.
\<close>

record notification_config =
  enableEmail :: bool
  enableBark :: bool
  enableTG :: bool
  enableWebhook :: bool
  enableQywx :: bool
  barkUrl :: "string option"
  tgBotToken :: "string option"
  tgChatId :: "string option"
  webhookUrl :: "string option"
  webhookId :: "string option"
  touser :: "string option"
  corpid :: "string option"
  corpsecret :: "string option"
  agentid :: "string option"
  baseApiUrl :: "string option"
  picUrl :: "string option"

datatype channel = Email | Bark | TG | Webhook | Qywx

text \<open>
  What a transport does with one message. \<open>Inl s\<close>: an exception was raised inside the
  channel function's \<open>try\<close>, with \<open>str(e) = s\<close>. \<open>Inr\<close>: the mail was handed over; the
  HTTP status code of the GET; the \<open>errcode\<close> entry of the enterprise chat's answer
  (\<open>None\<close> when the answer has none).
\<close>

record transports =
  smtp :: "string + unit"
  bark_get :: "string + nat"
  tg_get :: "string + nat"
  webhook_get :: "string + nat"
  qywx_post :: "string + int option"

text \<open>The value a channel function returns: \<open>True\<close>, \<open>False\<close> or a string.\<close>

datatype outcome = PyTrue | PyFalse | PyStr string

type_synonym results = "(channel \<times> outcome) list"

datatype fanout = SentTrue | SendFailed results

text \<open>The fixed texts of the log entries \<open>security group state\<close> and \<open>notification\<close>.\<close>

datatype sg_status =
    RuleDisabledNow      \<comment> \<open>line 413: the 0.0.0.0/0 rule has been disabled\<close>
  | AlreadyDisabled      \<comment> \<open>line 417: rule already disabled, nothing to do\<close>
  | RuleRestoredNow      \<comment> \<open>line 423: the 0.0.0.0 rule has been restored\<close>
  | AlreadyEnabled       \<comment> \<open>line 427: rule already enabled, nothing to do\<close>

datatype notify_status =
    NotifySuccess
  | NotifyFailure fanout
  | NotNeeded

datatype detail = Known string | NoExpiry | NoPublicIp | QueryFailed

record instance_details =
  expiry :: detail
  public_ip :: detail

text \<open>
  The dict \<open>log\<close> of \<open>check\<close>, lines 394 to 404. Numbers are kept as numbers where the
  code formats them into strings. The region is kept as its id (the code looks its display
  name up in \<open>REGION_NAMES\<close>, with a default). The last two entries are set later, so they
  are options.
\<close>

record log_record =
  log_instanceId :: string
  log_server :: string
  log_total :: rat
  log_used :: rat
  log_percentage :: rat
  log_region :: string
  log_expiry :: detail
  log_public_ip :: detail
  log_reached95 :: bool
  log_sg_status :: "sg_status option"
  log_notify :: "notify_status option"

text \<open>
  What \<open>send_notification\<close> is given: a dict with the key \<open>error message\<close> (server,
  instance id, error), or the log record of an account.
\<close>

datatype notice = ErrorNote string string exn | ToggleNote log_record

datatype api_action =
    DescribeInstances
  | ListCdtInternetTraffic
  | DescribeInstanceAttribute
  | DescribeSecurityGroupAttribute
  | RevokeSecurityGroup
  | AuthorizeSecurityGroup

datatype line =
    TrafficError exn
  | SecurityGroupIdError exn
  | RuleCheckError exn
  | RuleDisabled
  | DisableError exn
  | RuleRestored
  | RestoreError exn
  | ValidationError exn
  | DetailsError exn
  | CheckError exn

text \<open>
  What a run does, in order: the API actions it calls, the lines it prints, the calls of
  \<open>send_notification\<close> (with the dict \<open>results\<close> each built) and the final
  \<open>write_log\<close>. The lines that the channel functions print are left out.
\<close>

datatype event =
    Api api_action
  | Print line
  | Notify notice results
  | WriteLog "log_record list"

record instance_info =
  ExpiredTime :: "string option"
  EipAddress :: "string option"

record permission =
  IpProtocol :: "string option"
  SourceCidrIp :: "string option"
  Policy :: "string option"
  NicType :: "string option"
  Direction :: "string option"

text \<open>
  What the remote services answer while one account is processed. \<open>Inl e\<close>: the call (or
  anything else inside the helper's \<open>try\<close>, such as reading a malformed body) raised
  \<open>e\<close>. \<open>Inr\<close>: the part of the body that the helper reads, an absent list being the
  empty list as with the code's \<open>.get(..., [])\<close>:
  the ids of the instances listed; the \<open>Traffic\<close> entry of each traffic detail, a
  number of bytes (\<open>None\<close> when the item has none); the security group ids of the instance; the instances listed for
  the one id; the permissions of the security group. \<open>deliver\<close> is what the transports do
  with a given message.
\<close>

record remote =
  describe_instances :: "exn + string list"
  list_cdt_traffic :: "exn + int option list"
  describe_instance_attribute :: "exn + string list"
  describe_instance_details :: "exn + instance_info list"
  describe_sg_attribute :: "exn + permission list"
  revoke_sg :: "exn + unit"
  authorize_sg :: "exn + unit"
  deliver :: "notice \<Rightarrow> transports"

section \<open>The helpers of \<open>aliyun_cdt_check.py\<close>\<close>

text \<open>
  Each helper wraps its remote call in \<open>try ... except Exception\<close>: it prints the
  exception and returns a fixed value. A helper returns the events it caused and its
  value. The client is built inside the \<open>try\<close>; the model counts the API action as
  called whenever the helper runs.
\<close>

definition get_traffic :: "exn + int option list \<Rightarrow> event list \<times> rat" where
  \<comment> \<open>lines 103 to 113. The sum of integers is exact; the division of two integers
      returns the double nearest to the quotient and raises \<open>OverflowError\<close>, inside the
      \<open>try\<close>, when that is \<open>2^1024\<close> or more in magnitude (binary exponent 1024 or
      more)\<close>
  "get_traffic answer =
     (case answer of
        Inr traffic_details \<Rightarrow>
          (let total = sum_list (map (\<lambda>item. case item of None \<Rightarrow> 0 | Some v \<Rightarrow> v)
                                     traffic_details);
               gb = nearest_double (of_int total / (1024 * 1024 * 1024))
           in if gb \<noteq> 0 \<and> 1024 \<le> binary_exponent gb
              then ([Api ListCdtInternetTraffic, Print (TrafficError OverflowError)], 0)
              else ([Api ListCdtInternetTraffic], gb))
      | Inl e \<Rightarrow> ([Api ListCdtInternetTraffic, Print (TrafficError e)], 0))"

definition get_security_group_id :: "exn + string list \<Rightarrow> event list \<times> string option" where
  \<comment> \<open>lines 116 to 127; \<open>[0]\<close> of an empty list raises \<open>IndexError\<close> inside the \<open>try\<close>\<close>
  "get_security_group_id answer =
     (case answer of
        Inr (g # _) \<Rightarrow> ([Api DescribeInstanceAttribute], Some g)
      | Inr [] \<Rightarrow> ([Api DescribeInstanceAttribute, Print (SecurityGroupIdError IndexError)], None)
      | Inl e \<Rightarrow> ([Api DescribeInstanceAttribute, Print (SecurityGroupIdError e)], None))"

definition upper_char :: "char \<Rightarrow> char" where
  \<comment> \<open>\<open>str.upper\<close> on one byte: the ASCII letters a to z\<close>
  "upper_char c =
     (let n = (of_char c :: nat) in if 97 \<le> n \<and> n \<le> 122 then char_of (n - 32) else c)"

definition rule_matches :: "permission \<Rightarrow> bool" where
  \<comment> \<open>the condition of lines 140 to 144\<close>
  "rule_matches rule \<longleftrightarrow>
     map upper_char (case IpProtocol rule of None \<Rightarrow> [] | Some p \<Rightarrow> p) = ''ALL''
     \<and> SourceCidrIp rule = Some ''0.0.0.0/0''
     \<and> Policy rule = Some ''Accept''
     \<and> NicType rule = Some ''intranet''
     \<and> Direction rule = Some ''ingress''"

fun scan_permissions :: "permission list \<Rightarrow> bool" where
  \<comment> \<open>the loop of lines 139 to 146\<close>
  "scan_permissions [] = False"
| "scan_permissions (rule # permissions) =
     (if rule_matches rule then True else scan_permissions permissions)"

definition is_security_group_rule_enabled ::
  "string option \<Rightarrow> exn + permission list \<Rightarrow> event list \<times> bool" where
  \<comment> \<open>lines 130 to 149\<close>
  "is_security_group_rule_enabled security_group_id answer =
     (case answer of
        Inr permissions \<Rightarrow> ([Api DescribeSecurityGroupAttribute], scan_permissions permissions)
      | Inl e \<Rightarrow> ([Api DescribeSecurityGroupAttribute, Print (RuleCheckError e)], False))"

definition disable_security_group_rule :: "string option \<Rightarrow> exn + unit \<Rightarrow> event list" where
  \<comment> \<open>lines 152 to 165; nothing is returned\<close>
  "disable_security_group_rule security_group_id answer =
     (case answer of
        Inr _ \<Rightarrow> [Api RevokeSecurityGroup, Print RuleDisabled]
      | Inl e \<Rightarrow> [Api RevokeSecurityGroup, Print (DisableError e)])"

definition enable_security_group_rule :: "string option \<Rightarrow> exn + unit \<Rightarrow> event list" where
  \<comment> \<open>lines 168 to 181; nothing is returned\<close>
  "enable_security_group_rule security_group_id answer =
     (case answer of
        Inr _ \<Rightarrow> [Api AuthorizeSecurityGroup, Print RuleRestored]
      | Inl e \<Rightarrow> [Api AuthorizeSecurityGroup, Print (RestoreError e)])"

definition get_instance_details :: "exn + instance_info list \<Rightarrow> event list \<times> instance_details" where
  \<comment> \<open>lines 207 to 227; an empty address is falsy\<close>
  "get_instance_details answer =
     (case answer of
        Inr (inst # _) \<Rightarrow>
          ([Api DescribeInstances],
           \<lparr>expiry = (case ExpiredTime inst of None \<Rightarrow> NoExpiry | Some t \<Rightarrow> Known t),
            public_ip = (case EipAddress inst of
                           None \<Rightarrow> NoPublicIp
                         | Some eip \<Rightarrow> if eip \<noteq> [] then Known eip else NoPublicIp)\<rparr>)
      | Inr [] \<Rightarrow> ([Api DescribeInstances], \<lparr>expiry = NoExpiry, public_ip = NoPublicIp\<rparr>)
      | Inl e \<Rightarrow>
          ([Api DescribeInstances, Print (DetailsError e)],
           \<lparr>expiry = QueryFailed, public_ip = QueryFailed\<rparr>))"

section \<open>The notification fanout\<close>

definition send_email_notification :: "string + unit \<Rightarrow> outcome" where
  \<comment> \<open>lines 278 to 299: \<open>True\<close>, or \<open>str(e)\<close>\<close>
  "send_email_notification t = (case t of Inr _ \<Rightarrow> PyTrue | Inl s \<Rightarrow> PyStr s)"

definition send_bark_notification :: "string + nat \<Rightarrow> outcome" where
  \<comment> \<open>lines 302 to 310\<close>
  "send_bark_notification t =
     (case t of Inr status_code \<Rightarrow> if status_code = 200 then PyTrue else PyFalse
              | Inl _ \<Rightarrow> PyFalse)"

definition send_tg_notification :: "string + nat \<Rightarrow> outcome" where
  \<comment> \<open>lines 313 to 321\<close>
  "send_tg_notification t =
     (case t of Inr status_code \<Rightarrow> if status_code = 200 then PyTrue else PyFalse
              | Inl _ \<Rightarrow> PyFalse)"

definition send_webhook_notification :: "string + nat \<Rightarrow> outcome" where
  \<comment> \<open>lines 324 to 332\<close>
  "send_webhook_notification t =
     (case t of Inr status_code \<Rightarrow> if status_code = 200 then PyTrue else PyFalse
              | Inl _ \<Rightarrow> PyFalse)"

definition send_qywx_notification :: "string + int option \<Rightarrow> outcome" where
  \<comment> \<open>lines 335 to 367: \<open>response.get('errcode') == 0\<close>\<close>
  "send_qywx_notification t =
     (case t of Inr errcode \<Rightarrow> if errcode = Some 0 then PyTrue else PyFalse
              | Inl _ \<Rightarrow> PyFalse)"

fun first_missing :: "(string \<times> string option) list \<Rightarrow> string option" where
  \<comment> \<open>the first of the subscripted keys that is absent, in the order the code reads them\<close>
  "first_missing [] = None"
| "first_missing ((k, v) # kvs) = (case v of None \<Rightarrow> Some k | Some _ \<Rightarrow> first_missing kvs)"

definition channel_step ::
  "bool \<Rightarrow> (string \<times> string option) list \<Rightarrow> channel \<Rightarrow> outcome
   \<Rightarrow> results \<times> exn option \<Rightarrow> results \<times> exn option" where
  \<comment> \<open>one \<open>if notification_config.get(...): results[...] = send_...(...)\<close>; nothing runs
      once an exception is on its way\<close>
  "channel_step enabled keys ch out st =
     (case st of
        (rs, Some e) \<Rightarrow> (rs, Some e)
      | (rs, None) \<Rightarrow>
          if \<not> enabled then (rs, None)
          else (case first_missing keys of
                  Some k \<Rightarrow> (rs, Some (KeyError k))
                | None \<Rightarrow> (rs @ [(ch, out)], None)))"

fun scan_results :: "results \<Rightarrow> results \<Rightarrow> fanout" where
  \<comment> \<open>the loop of lines 272 to 275 over \<open>results.items()\<close>\<close>
  "scan_results results [] = SentTrue"
| "scan_results results ((key, result) # items) =
     (if result \<noteq> PyTrue then SendFailed results else scan_results results items)"

definition send_notification ::
  "notice \<Rightarrow> notification_config \<Rightarrow> (notice \<Rightarrow> transports) \<Rightarrow> results \<times> (exn + fanout)" where
  \<comment> \<open>lines 230 to 275; returns the dict \<open>results\<close> as built, and the value or the
      exception\<close>
  "send_notification log_dict notification_config dlv =
     (let t = dlv log_dict;
          s1 = channel_step (enableEmail notification_config) []
                 Email (send_email_notification (smtp t)) ([], None);
          s2 = channel_step (enableBark notification_config)
                 [(''barkUrl'', barkUrl notification_config)]
                 Bark (send_bark_notification (bark_get t)) s1;
          s3 = channel_step (enableTG notification_config)
                 [(''tgBotToken'', tgBotToken notification_config),
                  (''tgChatId'', tgChatId notification_config)]
                 TG (send_tg_notification (tg_get t)) s2;
          s4 = channel_step (enableWebhook notification_config)
                 [(''webhookUrl'', webhookUrl notification_config),
                  (''webhookId'', webhookId notification_config)]
                 Webhook (send_webhook_notification (webhook_get t)) s3;
          s5 = channel_step (enableQywx notification_config)
                 [(''touser'', touser notification_config),
                  (''corpid'', corpid notification_config),
                  (''corpsecret'', corpsecret notification_config),
                  (''agentid'', agentid notification_config),
                  (''baseApiUrl'', baseApiUrl notification_config),
                  (''picUrl'', picUrl notification_config)]
                 Qywx (send_qywx_notification (qywx_post t)) s4
      in case s5 of
           (results, Some e) \<Rightarrow> (results, Inl e)
         | (results, None) \<Rightarrow> (results, Inr (scan_results results results)))"

section \<open>The validation gate\<close>

definition validate_try :: "account \<Rightarrow> remote \<Rightarrow> exn + bool" where
  \<comment> \<open>the \<open>try\<close> part, lines 187 to 195\<close>
  "validate_try account rm =
     (case describe_instances rm of
        Inl e \<Rightarrow> Inl e
      | Inr instances \<Rightarrow>
          if instanceId account \<in> set instances then Inr True
          else Inl (InstanceIdMissing (instanceId account)))"

definition validate_credentials_and_instance ::
  "account \<Rightarrow> notification_config \<Rightarrow> remote \<Rightarrow> event list \<times> (exn + bool)" where
  \<comment> \<open>lines 184 to 204; \<open>Inl\<close>: \<open>send_notification\<close> raised inside the handler, which
      nothing catches\<close>
  "validate_credentials_and_instance account notification_config rm =
     (case validate_try account rm of
        Inr v \<Rightarrow> ([Api DescribeInstances], Inr v)
      | Inl e \<Rightarrow>
          (let log_dict = ErrorNote (case accountName account of None \<Rightarrow> [] | Some n \<Rightarrow> n)
                            (instanceId account) e;
               (results, sent) = send_notification log_dict notification_config (deliver rm)
           in ([Api DescribeInstances, Print (ValidationError e), Notify log_dict results],
               case sent of Inl k \<Rightarrow> Inl k | Inr _ \<Rightarrow> Inr False)))"

section \<open>The check\<close>

definition account_name_of :: "account \<Rightarrow> string" where
  \<comment> \<open>line 384\<close>
  "account_name_of account =
     (case accountName account of
        Some n \<Rightarrow> n
      | None \<Rightarrow> take 7 (AccessKeyId account) @ ''***'')"

definition notify_toggle ::
  "log_record \<Rightarrow> notification_config \<Rightarrow> remote \<Rightarrow> event list \<times> (exn + log_record)" where
  \<comment> \<open>lines 414 and 415, and again 424 and 425\<close>
  "notify_toggle log_dict notification_config rm =
     (let (results, sent) = send_notification (ToggleNote log_dict) notification_config (deliver rm)
      in ([Notify (ToggleNote log_dict) results],
          case sent of
            Inl k \<Rightarrow> Inl k
          | Inr notification_result \<Rightarrow>
              Inr (log_dict\<lparr>log_notify :=
                     Some (if notification_result = SentTrue then NotifySuccess
                           else NotifyFailure notification_result)\<rparr>)))"

definition check_try ::
  "account \<Rightarrow> notification_config \<Rightarrow> remote \<Rightarrow> event list \<times> (exn + log_record)" where
  \<comment> \<open>the \<open>try\<close> part of the loop body, lines 383 to 430; \<open>Inr\<close> is the record appended
      to \<open>logs\<close>\<close>
  "check_try account notification_config rm =
     (let (ev1, traffic) = get_traffic (list_cdt_traffic rm);
          account_name = account_name_of account
      in case usage_percentage traffic (maxTraffic account) of
           Inl e \<Rightarrow> (ev1, Inl e)
         | Inr usage \<Rightarrow>
             (let (ev2, security_group_id) =
                    get_security_group_id (describe_instance_attribute rm);
                  (ev3, instance_details) = get_instance_details (describe_instance_details rm);
                  log_dict = \<lparr>log_instanceId = instanceId account,
                              log_server = account_name,
                              log_total = maxTraffic account,
                              log_used = py_round2 traffic,
                              log_percentage = usage,
                              log_region = regionId account,
                              log_expiry = expiry instance_details,
                              log_public_ip = public_ip instance_details,
                              log_reached95 = (95 \<le> usage),
                              log_sg_status = None,
                              log_notify = None\<rparr>;
                  (ev4, is_enabled) =
                    is_security_group_rule_enabled security_group_id (describe_sg_attribute rm);
                  evs = ev1 @ ev2 @ ev3 @ ev4
              in if 95 \<le> usage then
                   (if is_enabled then
                      (let ev5 = disable_security_group_rule security_group_id (revoke_sg rm);
                           (ev6, r) = notify_toggle
                                        (log_dict\<lparr>log_sg_status := Some RuleDisabledNow\<rparr>)
                                        notification_config rm
                       in (evs @ ev5 @ ev6, r))
                    else (evs, Inr (log_dict\<lparr>log_sg_status := Some AlreadyDisabled,
                                             log_notify := Some NotNeeded\<rparr>)))
                 else
                   (if \<not> is_enabled then
                      (let ev5 = enable_security_group_rule security_group_id (authorize_sg rm);
                           (ev6, r) = notify_toggle
                                        (log_dict\<lparr>log_sg_status := Some RuleRestoredNow\<rparr>)
                                        notification_config rm
                       in (evs @ ev5 @ ev6, r))
                    else (evs, Inr (log_dict\<lparr>log_sg_status := Some AlreadyEnabled,
                                             log_notify := Some NotNeeded\<rparr>)))))"

definition check_account ::
  "account \<Rightarrow> notification_config \<Rightarrow> remote \<Rightarrow> event list \<times> (exn + log_record option)" where
  \<comment> \<open>the body of the loop, lines 377 to 438. \<open>Inr (Some l)\<close>: \<open>l\<close> was appended to
      \<open>logs\<close>; \<open>Inr None\<close>: nothing was appended; \<open>Inl e\<close>: \<open>e\<close> left \<open>check\<close>\<close>
  "check_account account notification_config rm =
     (case validate_credentials_and_instance account notification_config rm of
        (ev0, Inl e) \<Rightarrow> (ev0, Inl e)
      | (ev0, Inr False) \<Rightarrow> (ev0, Inr None)
      | (ev0, Inr True) \<Rightarrow>
          (case check_try account notification_config rm of
             (ev1, Inr log_dict) \<Rightarrow> (ev0 @ ev1, Inr (Some log_dict))
           | (ev1, Inl e) \<Rightarrow>
               (let error_log = ErrorNote (account_name_of account) (instanceId account) e;
                    (results, sent) = send_notification error_log notification_config (deliver rm)
                in (ev0 @ ev1 @ [Print (CheckError e), Notify error_log results],
                    case sent of Inl k \<Rightarrow> Inl k | Inr _ \<Rightarrow> Inr None))))"

fun check_loop ::
  "notification_config \<Rightarrow> (account \<times> remote) list \<Rightarrow> log_record list
   \<Rightarrow> event list \<times> (exn + log_record list)" where
  \<comment> \<open>the loop of line 377 over the accounts, each with what the remote services answer
      while it is processed\<close>
  "check_loop notification_config [] logs = ([], Inr logs)"
| "check_loop notification_config ((account, rm) # accounts) logs =
     (case check_account account notification_config rm of
        (ev, Inl e) \<Rightarrow> (ev, Inl e)
      | (ev, Inr appended) \<Rightarrow>
          (let (evs, r) = check_loop notification_config accounts
                            (case appended of None \<Rightarrow> logs | Some l \<Rightarrow> logs @ [l])
           in (ev @ evs, r)))"

definition check ::
  "notification_config \<Rightarrow> (account \<times> remote) list \<Rightarrow> event list \<times> (exn + log_record list)" where
  \<comment> \<open>lines 370 to 440, the configuration already loaded\<close>
  "check notification_config accounts =
     (case check_loop notification_config accounts [] of
        (evs, Inr logs) \<Rightarrow> (evs @ [WriteLog logs], Inr logs)
      | (evs, Inl e) \<Rightarrow> (evs, Inl e))"

subsection \<open>What a run observed and did\<close>

definition computed_usage :: "account \<Rightarrow> remote \<Rightarrow> exn + rat" where
  \<comment> \<open>the value of \<open>usage_percentage\<close> at line 385\<close>
  "computed_usage account rm =
     usage_percentage (snd (get_traffic (list_cdt_traffic rm))) (maxTraffic account)"

definition observed_enabled :: "remote \<Rightarrow> bool" where
  \<comment> \<open>the value of \<open>is_enabled\<close> at line 406\<close>
  "observed_enabled rm =
     snd (is_security_group_rule_enabled
            (snd (get_security_group_id (describe_instance_attribute rm)))
            (describe_sg_attribute rm))"

definition revoke_calls :: "event list \<Rightarrow> nat" where
  "revoke_calls evs = length (filter (\<lambda>ev. ev = Api RevokeSecurityGroup) evs)"

definition authorize_calls :: "event list \<Rightarrow> nat" where
  "authorize_calls evs = length (filter (\<lambda>ev. ev = Api AuthorizeSecurityGroup) evs)"

fun is_toggle_notification :: "event \<Rightarrow> bool" where
  "is_toggle_notification (Notify (ToggleNote _) _) = True"
| "is_toggle_notification _ = False"

fun is_error_notification :: "event \<Rightarrow> bool" where
  "is_error_notification (Notify (ErrorNote _ _ _) _) = True"
| "is_error_notification _ = False"

definition toggle_notifications :: "event list \<Rightarrow> nat" where
  "toggle_notifications evs = length (filter is_toggle_notification evs)"

definition error_notifications :: "event list \<Rightarrow> nat" where
  "error_notifications evs = length (filter is_error_notification evs)"

fun is_notification :: "event \<Rightarrow> bool" where
  "is_notification (Notify _ _) = True"
| "is_notification _ = False"

definition notifications :: "event list \<Rightarrow> event list" where
  \<comment> \<open>the calls of \<open>send_notification\<close> of a run, in order\<close>
  "notifications evs = filter is_notification evs"

definition state_after_run :: "event list \<Rightarrow> bool \<Rightarrow> bool" where
  \<comment> \<open>the state of the rule after a run whose mutating call, if it issued one, took
      effect: a revoke removes the rule, an authorize adds it\<close>
  "state_after_run evs enabled =
     (if 0 < revoke_calls evs then False
      else if 0 < authorize_calls evs then True
      else enabled)"

subsection \<open>The channels of a configuration\<close>

text \<open>
  The channels whose \<open>enable...\<close> flag is set, in the order of lines 253 to 266; what the
  channel function of each returns on given transports; and whether the configuration
  holds every key that \<open>send_notification\<close> subscripts for the enabled channels.
\<close>

definition enabled_channels :: "notification_config \<Rightarrow> channel list" where
  "enabled_channels cfg =
     (if enableEmail cfg then [Email] else [])
     @ (if enableBark cfg then [Bark] else [])
     @ (if enableTG cfg then [TG] else [])
     @ (if enableWebhook cfg then [Webhook] else [])
     @ (if enableQywx cfg then [Qywx] else [])"

definition channel_outcome :: "transports \<Rightarrow> channel \<Rightarrow> outcome" where
  "channel_outcome t ch =
     (case ch of
        Email \<Rightarrow> send_email_notification (smtp t)
      | Bark \<Rightarrow> send_bark_notification (bark_get t)
      | TG \<Rightarrow> send_tg_notification (tg_get t)
      | Webhook \<Rightarrow> send_webhook_notification (webhook_get t)
      | Qywx \<Rightarrow> send_qywx_notification (qywx_post t))"

definition keys_present :: "notification_config \<Rightarrow> bool" where
  "keys_present cfg \<longleftrightarrow>
     (if enableBark cfg then barkUrl cfg \<noteq> None else True)
     \<and> (if enableTG cfg then tgBotToken cfg \<noteq> None \<and> tgChatId cfg \<noteq> None else True)
     \<and> (if enableWebhook cfg then webhookUrl cfg \<noteq> None \<and> webhookId cfg \<noteq> None else True)
     \<and> (if enableQywx cfg
         then touser cfg \<noteq> None \<and> corpid cfg \<noteq> None \<and> corpsecret cfg \<noteq> None
              \<and> agentid cfg \<noteq> None \<and> baseApiUrl cfg \<noteq> None \<and> picUrl cfg \<noteq> None
         else True)"

section \<open>The specification's own formulations\<close>

text \<open>
  The decision table of the specification, section 4.2, in its own words, and the state
  that an action leaves the rule in when it is carried out.
\<close>

datatype action = NoAction | Disable | Enable

definition reconcile_spec :: "bool \<Rightarrow> rat \<Rightarrow> action" where
  "reconcile_spec observedEnabled usagePercentage =
     (if 95 \<le> usagePercentage \<and> observedEnabled then Disable
      else if 95 \<le> usagePercentage \<and> \<not> observedEnabled then NoAction
      else if usagePercentage < 95 \<and> \<not> observedEnabled then Enable
      else NoAction)"

definition state_after_spec :: "action \<Rightarrow> bool \<Rightarrow> bool" where
  "state_after_spec a observedEnabled =
     (case a of Disable \<Rightarrow> False | Enable \<Rightarrow> True | NoAction \<Rightarrow> observedEnabled)"

text \<open>
  The rule for the progress bar of the specification, section 4.4, in its own words:
  whether \<open>filled\<close> cells are allowed at a percentage.
\<close>

definition bar_rule_spec :: "rat \<Rightarrow> int \<Rightarrow> bool" where
  "bar_rule_spec percentage filled =
     (if percentage = 0 then filled = 0
      else if 0 < percentage \<and> percentage < 1 then filled = 1
      else if 95 < percentage \<and> percentage < 100 then filled \<le> 20 - 1
      else filled = min 20 (py_round (1 / 2 + 20 * percentage / 100)))"

section \<open>A scenario\<close>

text \<open>
  One account at 96 per cent of its quota whose rule is enabled, a revoke call that
  fails, and three channels of which the second raises.
\<close>

definition demo_config :: notification_config where
  "demo_config =
     \<lparr>enableEmail = True, enableBark = True, enableTG = True, enableWebhook = False,
      enableQywx = False, barkUrl = Some ''https://bark.example'', tgBotToken = Some ''token'',
      tgChatId = Some ''42'', webhookUrl = None, webhookId = None, touser = None,
      corpid = None, corpsecret = None, agentid = None, baseApiUrl = None, picUrl = None\<rparr>"

definition demo_transports :: transports where
  "demo_transports =
     \<lparr>smtp = Inr (), bark_get = Inl ''timed out'', tg_get = Inr 200, webhook_get = Inr 200,
      qywx_post = Inr (Some 0)\<rparr>"

definition demo_account :: account where
  "demo_account =
     \<lparr>accountName = Some ''server'', AccessKeyId = ''LTAI0123456789'', AccessKeySecret = ''secret'',
      regionId = ''cn-hongkong'', instanceId = ''i-1'', maxTraffic = 200\<rparr>"

definition demo_rule :: permission where
  "demo_rule =
     \<lparr>IpProtocol = Some ''all'', SourceCidrIp = Some ''0.0.0.0/0'', Policy = Some ''Accept'',
      NicType = Some ''intranet'', Direction = Some ''ingress''\<rparr>"

definition demo_remote :: remote where
  "demo_remote =
     \<lparr>describe_instances = Inr [''i-0'', ''i-1''],
      list_cdt_traffic = Inr [Some (192 * 1024 * 1024 * 1024), None],
      describe_instance_attribute = Inr [''sg-1''],
      describe_instance_details =
        Inr [\<lparr>ExpiredTime = Some ''2030-01-01T00:00Z'', EipAddress = Some ''192.0.2.1''\<rparr>],
      describe_sg_attribute = Inr [demo_rule],
      revoke_sg = Inl (Raised ''Forbidden''),
      authorize_sg = Inr (),
      deliver = (\<lambda>_. demo_transports)\<rparr>"

definition demo_remote_after :: remote where
  \<comment> \<open>the same account later, the rule gone from the security group\<close>
  "demo_remote_after = demo_remote\<lparr>describe_sg_attribute := Inr []\<rparr>"


definition demo_remote_degraded :: remote where
  \<comment> \<open>the traffic query and the security group query both raise\<close>
  "demo_remote_degraded =
     demo_remote\<lparr>list_cdt_traffic := Inl (Raised ''timeout''),
                 describe_sg_attribute := Inl (Raised ''throttled'')\<rparr>"

section \<open>Rounding\<close>

lemma py_round_of_int: "py_round (of_int n) = n"
  by (simp add: py_round_def)

lemma py_round_lower: "of_int n \<le> x \<Longrightarrow> n \<le> py_round x"
proof -
  assume "of_int n \<le> x"
  then have "n \<le> \<lfloor>x\<rfloor>" by (simp add: le_floor_iff)
  then show ?thesis by (simp add: py_round_def Let_def)
qed

lemma py_round_upper: "x \<le> of_int n \<Longrightarrow> py_round x \<le> n"
proof -
  assume a: "x \<le> of_int n"
  then have f: "\<lfloor>x\<rfloor> \<le> n" by (simp add: floor_le_iff)
  show ?thesis
  proof (cases "\<lfloor>x\<rfloor> = n")
    case True
    then have "x = of_int n" using a of_int_floor_le [of x] by simp
    then show ?thesis by (simp add: py_round_of_int)
  next
    case False
    with f have "\<lfloor>x\<rfloor> + 1 \<le> n" by linarith
    then show ?thesis by (simp add: py_round_def Let_def)
  qed
qed

lemma py_round_96: "191 / 2 \<le> x \<Longrightarrow> 96 \<le> py_round x"
proof -
  assume a: "191 / 2 \<le> x"
  then have "of_int 95 \<le> x" by simp
  then have f: "95 \<le> \<lfloor>x\<rfloor>" by (simp only: le_floor_iff)
  show ?thesis
  proof (cases "\<lfloor>x\<rfloor> = 95")
    case True
    then have d: "1 / 2 \<le> x - of_int \<lfloor>x\<rfloor>" using a by simp
    show ?thesis using True d by (simp add: py_round_def Let_def)
  next
    case False
    with f have "96 \<le> \<lfloor>x\<rfloor>" by linarith
    then show ?thesis by (simp add: py_round_def Let_def)
  qed
qed

lemma py_round_half: "py_round (1 / 2) = 0"
  by code_simp



section \<open>Doubles\<close>

lemma bit_length_nonneg: "0 \<le> bit_length n"
proof (induction n rule: bit_length.induct)
  case (1 n)
  show ?case
  proof (cases "n \<le> 0")
    case True
    then show ?thesis by (subst bit_length.simps) simp
  next
    case False
    with "1.IH" have "0 \<le> bit_length (n div 2)" by simp
    with False show ?thesis by (subst bit_length.simps) simp
  qed
qed

lemma bit_length_bounds:
  "0 < n \<Longrightarrow> 2 ^ nat (bit_length n - 1) \<le> n \<and> n < 2 ^ nat (bit_length n)"
proof (induction n rule: bit_length.induct)
  case (1 n)
  have b: "bit_length n = 1 + bit_length (n div 2)"
    using "1.prems" by (subst bit_length.simps) simp
  show ?case
  proof (cases "n div 2 \<le> 0")
    case True
    with "1.prems" have n: "n = 1" by presburger
    have "bit_length (1 div 2) = 0" by (subst bit_length.simps) simp
    then show ?thesis using n b by simp
  next
    case False
    then have h: "0 < n div 2" by simp
    from "1.IH" [OF _ h] "1.prems"
    have ih: "2 ^ nat (bit_length (n div 2) - 1) \<le> n div 2"
      "n div 2 < 2 ^ nat (bit_length (n div 2))"
      by simp_all
    have b2: "bit_length (n div 2) = 1 + bit_length (n div 2 div 2)"
      using h by (subst bit_length.simps) simp
    have pos: "0 < bit_length (n div 2)"
      using b2 bit_length_nonneg [of "n div 2 div 2"] by simp
    have e1: "nat (bit_length n - 1) = Suc (nat (bit_length (n div 2) - 1))"
      using pos by (simp add: b nat_diff_distrib')
    have e2: "nat (bit_length n) = Suc (nat (bit_length (n div 2)))"
      using pos by (simp add: b nat_add_distrib)
    have d1: "2 * (n div 2) \<le> n" by presburger
    have d2: "n \<le> 2 * (n div 2) + 1" by presburger
    have lo: "2 ^ nat (bit_length n - 1) \<le> n"
      using ih(1) d1 by (simp add: e1)
    have hi: "n < 2 ^ nat (bit_length n)"
      using ih(2) d2 by (simp add: e2)
    from lo hi show ?thesis ..
  qed
qed

lemma bit_length_rat:
  assumes "0 < n"
  shows "power_int 2 (bit_length n - 1) \<le> (of_int n :: rat)"
    and "(of_int n :: rat) < power_int 2 (bit_length n)"
proof -
  note b = bit_length_bounds [OF assms]
  have b1: "bit_length n = 1 + bit_length (n div 2)"
    using assms by (subst bit_length.simps) simp
  have p: "0 \<le> bit_length n - 1" using b1 bit_length_nonneg [of "n div 2"] by simp
  have "(of_int (2 ^ nat (bit_length n - 1)) :: rat) \<le> of_int n"
    using b by (simp only: of_int_le_iff)
  then show "power_int 2 (bit_length n - 1) \<le> (of_int n :: rat)"
    using p by (simp add: power_int_def)
  have "(of_int n :: rat) < of_int (2 ^ nat (bit_length n))"
    using b by (simp only: of_int_less_iff)
  then show "(of_int n :: rat) < power_int 2 (bit_length n)"
    using p by (simp add: power_int_def)
qed


lemma binary_exponent_upper:
  assumes "x \<noteq> 0"
  shows "\<bar>x\<bar> < power_int 2 (binary_exponent x + 1)"
proof -
  obtain p q where pq: "quotient_of \<bar>x\<bar> = (p, q)" by (cases "quotient_of \<bar>x\<bar>")
  have q: "0 < q" using pq by (rule quotient_of_denom_pos)
  have x: "\<bar>x\<bar> = of_int p / of_int q" using pq by (rule quotient_of_div)
  have p: "0 < p"
  proof -
    have "0 < \<bar>x\<bar>" using assms by simp
    then have "0 < (of_int p :: rat) / of_int q" using x by simp
    then show ?thesis using q by (simp add: zero_less_divide_iff)
  qed
  let ?k = "bit_length p - bit_length q"
  have hi: "\<bar>x\<bar> < power_int 2 (?k + 1)"
  proof -
    have a: "(of_int p :: rat) < power_int 2 (bit_length p)"
      using p by (rule bit_length_rat(2))
    have b: "power_int 2 (bit_length q - 1) \<le> (of_int q :: rat)"
      using q by (rule bit_length_rat(1))
    have pb: "0 < power_int (2::rat) (bit_length q - 1)" by simp
    have "(of_int p :: rat) / of_int q \<le> of_int p / power_int 2 (bit_length q - 1)"
      using b p pb by (simp add: frac_le)
    also have "\<dots> < power_int 2 (bit_length p) / power_int 2 (bit_length q - 1)"
      using a pb by (simp add: divide_strict_right_mono)
    also have "\<dots> = power_int (2::rat) (bit_length p - (bit_length q - 1))"
      by (simp add: power_int_diff)
    also have "bit_length p - (bit_length q - 1) = ?k + 1" by simp
    finally show ?thesis using x by simp
  qed
  show ?thesis
  proof (cases "power_int 2 ?k \<le> \<bar>x\<bar>")
    case True
    then show ?thesis using hi by (simp add: binary_exponent_def pq Let_def)
  next
    case False
    then show ?thesis by (simp add: binary_exponent_def pq Let_def)
  qed
qed

lemma nearest_double_zero: "nearest_double 0 = 0"
  by (simp add: nearest_double_def)




lemma py_round2_zero: "py_round2 0 = 0"
  using py_round_of_int [of 0] by (simp add: py_round2_def nearest_double_zero)



lemma usage_percentage_zero:
  "quota \<noteq> 0 \<Longrightarrow> usage_percentage 0 quota = Inr 0"
  by (simp add: usage_percentage_def nearest_double_zero py_round2_zero)

section \<open>The progress bar\<close>

text \<open>
  C3, as the specification states it, fails on the code. The code tests the percentage
  rounded to an integer, not the percentage: at 95.2 per cent the rounded value is 95, the
  branch for "above 95" is not taken and the last branch gives \<open>round(19.5) = 20\<close> filled
  cells where the rule allows at most 19; at 10.3 per cent the code gives
  \<open>round(0.5 + 20 * 10 / 100) = 2\<close> cells where the rule's formula gives
  \<open>round(0.5 + 20 * 10.3 / 100) = 3\<close>.
\<close>

theorem bar_rule_spec_counterexample:
  "\<not> bar_rule_spec (476 / 5) (progress_do_num (476 / 5))
   \<and> \<not> bar_rule_spec (103 / 10) (progress_do_num (103 / 10))"
  by code_simp

text \<open>
  C3, amended: 0 per cent gives 0 filled cells; a percentage strictly between 0 and 1
  gives 1; a percentage from 95.5 up to but not including 100 gives 19; and a percentage
  below 0, from 1 to 95, or from 100 on gives \<open>round(0.5 + 20 * r / 100)\<close> cells, at most
  20, where \<open>r\<close> is the percentage rounded to an integer (a tie to the even one). Nothing
  is said about a percentage strictly between 95 and 95.5.
\<close>

theorem progress_do_num_rule:
  "(usage = 0 \<longrightarrow> progress_do_num usage = 0)
   \<and> (0 < usage \<and> usage < 1 \<longrightarrow> progress_do_num usage = 1)
   \<and> (191 / 2 \<le> usage \<and> usage < 100 \<longrightarrow> progress_do_num usage = 20 - 1)
   \<and> (usage < 0 \<or> (1 \<le> usage \<and> usage \<le> 95) \<or> 100 \<le> usage \<longrightarrow>
        progress_do_num usage
          = min 20 (py_round (1 / 2 + 20 * of_int (py_round usage) / 100)))"
proof (intro conjI impI)
  assume "usage = 0"
  then show "progress_do_num usage = 0"
    by (simp add: progress_do_num_def py_round_def)
next
  assume "0 < usage \<and> usage < 1"
  then show "progress_do_num usage = 1"
    by (simp add: progress_do_num_def)
next
  assume a: "191 / 2 \<le> usage \<and> usage < 100"
  then have "96 \<le> py_round usage" by (simp add: py_round_96)
  with a show "progress_do_num usage = 20 - 1"
    by (simp add: progress_do_num_def Let_def)
next
  assume a: "usage < 0 \<or> (1 \<le> usage \<and> usage \<le> 95) \<or> 100 \<le> usage"
  let ?rhs = "min 20 (py_round (1 / 2 + 20 * of_int (py_round usage) / 100))"
  from a consider (neg) "usage < 0" | (mid) "1 \<le> usage" "usage \<le> 95" | (top) "100 \<le> usage"
    by blast
  then show "progress_do_num usage = ?rhs"
  proof cases
    case neg
    have "py_round usage \<le> 0" using neg py_round_upper [of usage 0] by simp
    then show ?thesis using neg
      by (simp add: progress_do_num_def Let_def py_round_half)
  next
    case mid
    have "1 \<le> py_round usage" using mid py_round_lower [of 1 usage] by simp
    moreover have "py_round usage \<le> 95" using mid py_round_upper [of usage 95] by simp
    ultimately show ?thesis using mid
      by (simp add: progress_do_num_def Let_def)
  next
    case top
    have "100 \<le> py_round usage" using top py_round_lower [of 100 usage] by simp
    then show ?thesis using top
      by (simp add: progress_do_num_def Let_def)
  qed
qed

theorem progress_do_num_rule_witness:
  "progress_do_num 0 = 0 \<and> progress_do_num (1 / 2) = 1 \<and> progress_do_num 96 = 19
   \<and> progress_do_num 50 = 10 \<and> progress_do_num (103 / 10) = 2"
  using progress_do_num_rule [of 0] progress_do_num_rule [of "1 / 2"]
    progress_do_num_rule [of 96] progress_do_num_rule [of 50]
    progress_do_num_rule [of "103 / 10"]
  by code_simp

text \<open>
  C8: the bar at 0, 100, 0.5, 96 and 50 per cent is 20 hollow cells, 20 filled cells,
  1 filled and 19 hollow, 19 filled and 1 hollow, 10 filled and 10 hollow.
\<close>

theorem progress_bar_examples:
  "progress_bar 0 = replicate 20 Hollow
   \<and> progress_bar 100 = replicate 20 Filled
   \<and> progress_bar (1 / 2) = replicate 1 Filled @ replicate 19 Hollow
   \<and> progress_bar 96 = replicate 19 Filled @ replicate 1 Hollow
   \<and> progress_bar 50 = replicate 10 Filled @ replicate 10 Hollow"
  by code_simp

section \<open>The check\<close>

subsection \<open>Counting events\<close>

lemma revoke_calls_simps [simp]:
  "revoke_calls [] = 0"
  "revoke_calls (ev # evs) = (if ev = Api RevokeSecurityGroup then 1 else 0) + revoke_calls evs"
  "revoke_calls (xs @ ys) = revoke_calls xs + revoke_calls ys"
  by (simp_all add: revoke_calls_def)

lemma authorize_calls_simps [simp]:
  "authorize_calls [] = 0"
  "authorize_calls (ev # evs) = (if ev = Api AuthorizeSecurityGroup then 1 else 0) + authorize_calls evs"
  "authorize_calls (xs @ ys) = authorize_calls xs + authorize_calls ys"
  by (simp_all add: authorize_calls_def)

lemma toggle_notifications_simps [simp]:
  "toggle_notifications [] = 0"
  "toggle_notifications (ev # evs) = (if is_toggle_notification ev then 1 else 0) + toggle_notifications evs"
  "toggle_notifications (xs @ ys) = toggle_notifications xs + toggle_notifications ys"
  by (simp_all add: toggle_notifications_def)

lemma error_notifications_simps [simp]:
  "error_notifications [] = 0"
  "error_notifications (ev # evs) = (if is_error_notification ev then 1 else 0) + error_notifications evs"
  "error_notifications (xs @ ys) = error_notifications xs + error_notifications ys"
  by (simp_all add: error_notifications_def)

lemma get_traffic_quiet [simp]:
  "revoke_calls (fst (get_traffic a)) = 0"
  "authorize_calls (fst (get_traffic a)) = 0"
  "toggle_notifications (fst (get_traffic a)) = 0"
  "error_notifications (fst (get_traffic a)) = 0"
  by (simp_all add: get_traffic_def Let_def split: sum.splits)

lemma get_security_group_id_quiet [simp]:
  "revoke_calls (fst (get_security_group_id a)) = 0"
  "authorize_calls (fst (get_security_group_id a)) = 0"
  "toggle_notifications (fst (get_security_group_id a)) = 0"
  "error_notifications (fst (get_security_group_id a)) = 0"
  by (simp_all add: get_security_group_id_def split: sum.splits list.splits)

lemma get_instance_details_quiet [simp]:
  "revoke_calls (fst (get_instance_details a)) = 0"
  "authorize_calls (fst (get_instance_details a)) = 0"
  "toggle_notifications (fst (get_instance_details a)) = 0"
  "error_notifications (fst (get_instance_details a)) = 0"
  by (simp_all add: get_instance_details_def split: sum.splits list.splits)

lemma is_security_group_rule_enabled_quiet [simp]:
  "revoke_calls (fst (is_security_group_rule_enabled g a)) = 0"
  "authorize_calls (fst (is_security_group_rule_enabled g a)) = 0"
  "toggle_notifications (fst (is_security_group_rule_enabled g a)) = 0"
  "error_notifications (fst (is_security_group_rule_enabled g a)) = 0"
  by (simp_all add: is_security_group_rule_enabled_def split: sum.splits)

lemma disable_counts [simp]:
  "revoke_calls (disable_security_group_rule g a) = 1"
  "authorize_calls (disable_security_group_rule g a) = 0"
  "toggle_notifications (disable_security_group_rule g a) = 0"
  "error_notifications (disable_security_group_rule g a) = 0"
  by (simp_all add: disable_security_group_rule_def split: sum.splits)

lemma enable_counts [simp]:
  "revoke_calls (enable_security_group_rule g a) = 0"
  "authorize_calls (enable_security_group_rule g a) = 1"
  "toggle_notifications (enable_security_group_rule g a) = 0"
  "error_notifications (enable_security_group_rule g a) = 0"
  by (simp_all add: enable_security_group_rule_def split: sum.splits)

lemma notify_toggle_counts [simp]:
  "revoke_calls (fst (notify_toggle l cfg rm)) = 0"
  "authorize_calls (fst (notify_toggle l cfg rm)) = 0"
  "toggle_notifications (fst (notify_toggle l cfg rm)) = 1"
  "error_notifications (fst (notify_toggle l cfg rm)) = 0"
  by (simp_all add: notify_toggle_def Let_def split: prod.splits)

lemma check_try_counts:
  assumes "computed_usage account rm = Inr u"
  shows "revoke_calls (fst (check_try account cfg rm))
           = (if 95 \<le> u \<and> observed_enabled rm then 1 else 0)"
    and "authorize_calls (fst (check_try account cfg rm))
           = (if u < 95 \<and> \<not> observed_enabled rm then 1 else 0)"
    and "toggle_notifications (fst (check_try account cfg rm))
           = (if (95 \<le> u \<and> observed_enabled rm) \<or> (u < 95 \<and> \<not> observed_enabled rm)
              then 1 else 0)"
    and "error_notifications (fst (check_try account cfg rm)) = 0"
  using assms
  by (simp_all add: check_try_def computed_usage_def observed_enabled_def Let_def split_def)

lemma validated_gate:
  "validate_try account rm = Inr True \<Longrightarrow>
   validate_credentials_and_instance account cfg rm = ([Api DescribeInstances], Inr True)"
  by (simp add: validate_credentials_and_instance_def)

lemma check_account_counts:
  assumes "validate_try account rm = Inr True"
  shows "revoke_calls (fst (check_account account cfg rm))
           = revoke_calls (fst (check_try account cfg rm))"
    and "authorize_calls (fst (check_account account cfg rm))
           = authorize_calls (fst (check_try account cfg rm))"
    and "toggle_notifications (fst (check_account account cfg rm))
           = toggle_notifications (fst (check_try account cfg rm))"
  using assms
  by (simp_all add: check_account_def validated_gate Let_def split_def split: sum.splits prod.splits)

text \<open>
  C1: for an account that passed the validation gate, with \<open>usagePercentage\<close> the
  computed usage and \<open>observedEnabled\<close> the queried state of the rule: at 95 per cent or
  more with the rule enabled exactly one revoke call is issued, with the rule disabled no
  mutating call; below 95 per cent with the rule disabled exactly one authorize call, with
  the rule enabled no mutating call; and \<open>send_notification\<close> is called with the
  account's record exactly once if the action of the decision table is not \<open>NoAction\<close>,
  and not at all otherwise.
\<close>

theorem check_decision:
  assumes "validate_try account rm = Inr True"
    and "computed_usage account rm = Inr usagePercentage"
    and "observed_enabled rm = observedEnabled"
  shows "(95 \<le> usagePercentage \<and> observedEnabled \<longrightarrow>
            revoke_calls (fst (check_account account cfg rm)) = 1
            \<and> authorize_calls (fst (check_account account cfg rm)) = 0)
       \<and> (95 \<le> usagePercentage \<and> \<not> observedEnabled \<longrightarrow>
            revoke_calls (fst (check_account account cfg rm)) = 0
            \<and> authorize_calls (fst (check_account account cfg rm)) = 0)
       \<and> (usagePercentage < 95 \<and> \<not> observedEnabled \<longrightarrow>
            authorize_calls (fst (check_account account cfg rm)) = 1
            \<and> revoke_calls (fst (check_account account cfg rm)) = 0)
       \<and> (usagePercentage < 95 \<and> observedEnabled \<longrightarrow>
            revoke_calls (fst (check_account account cfg rm)) = 0
            \<and> authorize_calls (fst (check_account account cfg rm)) = 0)
       \<and> toggle_notifications (fst (check_account account cfg rm))
            = (if reconcile_spec observedEnabled usagePercentage \<noteq> NoAction then 1 else 0)"
  using assms
  by (auto simp add: check_account_counts check_try_counts reconcile_spec_def)

theorem check_decision_witness:
  "validate_try demo_account demo_remote = Inr True
   \<and> computed_usage demo_account demo_remote = Inr 96
   \<and> observed_enabled demo_remote
   \<and> revoke_calls (fst (check_account demo_account demo_config demo_remote)) = 1
   \<and> authorize_calls (fst (check_account demo_account demo_config demo_remote)) = 0
   \<and> toggle_notifications (fst (check_account demo_account demo_config demo_remote)) = 1"
proof -
  have v: "validate_try demo_account demo_remote = Inr True" by code_simp
  have u: "computed_usage demo_account demo_remote = Inr 96" by code_simp
  have e: "observed_enabled demo_remote = True" by code_simp
  show ?thesis
    using check_decision [OF v u e, of demo_config] v u e
    by (simp add: reconcile_spec_def)
qed

subsection \<open>Running again\<close>

lemma reconcile_spec_idempotent:
  "reconcile_spec (state_after_spec (reconcile_spec observedEnabled u) observedEnabled) u = NoAction"
  by (simp add: reconcile_spec_def state_after_spec_def)

text \<open>
  C6: the transition is idempotent. Let a first run compute the usage \<open>u\<close>, and let a
  second run of the same account compute the same usage and observe the state that the
  first run's mutating call, if any, leaves the rule in. Then that state is the one the
  decision table's action leads to, the table's action for the second run is
  \<open>NoAction\<close>, and the second run issues no mutating call and sends no toggle
  notification. This holds for every usage, in particular from 0 up to 100.
\<close>

theorem rerun_is_idle:
  assumes "validate_try account rm1 = Inr True"
    and "computed_usage account rm1 = Inr u"
    and "validate_try account rm2 = Inr True"
    and "computed_usage account rm2 = Inr u"
    and "observed_enabled rm2
           = state_after_run (fst (check_account account cfg rm1)) (observed_enabled rm1)"
  shows "observed_enabled rm2
           = state_after_spec (reconcile_spec (observed_enabled rm1) u) (observed_enabled rm1)
       \<and> reconcile_spec (observed_enabled rm2) u = NoAction
       \<and> revoke_calls (fst (check_account account cfg rm2)) = 0
       \<and> authorize_calls (fst (check_account account cfg rm2)) = 0
       \<and> toggle_notifications (fst (check_account account cfg rm2)) = 0"
  using assms
  by (auto simp add: check_account_counts check_try_counts reconcile_spec_def
        state_after_spec_def state_after_run_def split: if_splits)

theorem rerun_is_idle_witness:
  "validate_try demo_account demo_remote = Inr True
   \<and> computed_usage demo_account demo_remote = Inr 96
   \<and> validate_try demo_account demo_remote_after = Inr True
   \<and> computed_usage demo_account demo_remote_after = Inr 96
   \<and> observed_enabled demo_remote_after
       = state_after_run (fst (check_account demo_account demo_config demo_remote))
           (observed_enabled demo_remote)
   \<and> reconcile_spec (observed_enabled demo_remote_after) 96 = NoAction
   \<and> revoke_calls (fst (check_account demo_account demo_config demo_remote_after)) = 0
   \<and> authorize_calls (fst (check_account demo_account demo_config demo_remote_after)) = 0
   \<and> toggle_notifications (fst (check_account demo_account demo_config demo_remote_after)) = 0"
proof -
  have v1: "validate_try demo_account demo_remote = Inr True" by code_simp
  have u1: "computed_usage demo_account demo_remote = Inr 96" by code_simp
  have v2: "validate_try demo_account demo_remote_after = Inr True" by code_simp
  have u2: "computed_usage demo_account demo_remote_after = Inr 96" by code_simp
  have e1: "observed_enabled demo_remote = True" by code_simp
  have e2: "observed_enabled demo_remote_after = False" by code_simp
  have r: "revoke_calls (fst (check_account demo_account demo_config demo_remote)) = 1"
    using e1 by (simp add: check_account_counts [OF v1] check_try_counts [OF u1])
  have s: "observed_enabled demo_remote_after
       = state_after_run (fst (check_account demo_account demo_config demo_remote))
           (observed_enabled demo_remote)"
    by (simp add: state_after_run_def r e2)
  show ?thesis
    using rerun_is_idle [OF v1 u1 v2 u2 s] v1 u1 v2 u2 s by blast
qed

subsection \<open>A quota of zero\<close>

text \<open>
  C2, as the specification states it, fails on the code: nothing guards the division, and
  a quota of zero makes line 385 raise \<open>ZeroDivisionError\<close>.
\<close>

theorem zero_quota_counterexample:
  "computed_usage (demo_account\<lparr>maxTraffic := 0\<rparr>) demo_remote = Inl ZeroDivisionError"
  by code_simp

lemma check_try_usage_error:
  "computed_usage account rm = Inl e \<Longrightarrow>
   check_try account cfg rm = (fst (get_traffic (list_cdt_traffic rm)), Inl e)"
  by (simp add: check_try_def computed_usage_def split_def Let_def)

text \<open>
  C2, amended: when the quota \<open>maxTraffic\<close> of an account is zero, the usage evaluation
  raises \<open>ZeroDivisionError\<close>. In \<open>check\<close> the handler of the account catches it: after
  the traffic query the run prints the error and sends one error notification with the
  account name, the instance id and the error; it issues no mutating call and appends no
  record to the log.
\<close>

theorem zero_quota_raises:
  assumes "maxTraffic account = 0"
  shows "usage_percentage traffic (maxTraffic account) = Inl ZeroDivisionError
       \<and> computed_usage account rm = Inl ZeroDivisionError
       \<and> (validate_try account rm = Inr True \<longrightarrow>
            fst (check_account account cfg rm)
              = Api DescribeInstances # fst (get_traffic (list_cdt_traffic rm))
                @ [Print (CheckError ZeroDivisionError),
                   Notify (ErrorNote (account_name_of account) (instanceId account)
                             ZeroDivisionError)
                     (fst (send_notification
                             (ErrorNote (account_name_of account) (instanceId account)
                                ZeroDivisionError) cfg (deliver rm)))]
            \<and> revoke_calls (fst (check_account account cfg rm)) = 0
            \<and> authorize_calls (fst (check_account account cfg rm)) = 0
            \<and> error_notifications (fst (check_account account cfg rm)) = 1
            \<and> (\<forall>l. snd (check_account account cfg rm) \<noteq> Inr (Some l)))"
proof -
  have u: "computed_usage account rm = Inl ZeroDivisionError"
    using assms by (simp add: computed_usage_def usage_percentage_def)
  have t: "check_try account cfg rm = (fst (get_traffic (list_cdt_traffic rm)), Inl ZeroDivisionError)"
    using u by (rule check_try_usage_error)
  show ?thesis
    using assms u t
    by (auto simp add: usage_percentage_def check_account_def validated_gate Let_def split_def
          split: sum.splits)
qed

theorem zero_quota_raises_witness:
  "maxTraffic (demo_account\<lparr>maxTraffic := 0\<rparr>) = 0
   \<and> validate_try (demo_account\<lparr>maxTraffic := 0\<rparr>) demo_remote = Inr True
   \<and> computed_usage (demo_account\<lparr>maxTraffic := 0\<rparr>) demo_remote = Inl ZeroDivisionError
   \<and> revoke_calls (fst (check_account (demo_account\<lparr>maxTraffic := 0\<rparr>) demo_config demo_remote)) = 0
   \<and> error_notifications (fst (check_account (demo_account\<lparr>maxTraffic := 0\<rparr>) demo_config demo_remote)) = 1"
proof -
  have m: "maxTraffic (demo_account\<lparr>maxTraffic := 0\<rparr>) = 0" by simp
  have v: "validate_try (demo_account\<lparr>maxTraffic := 0\<rparr>) demo_remote = Inr True" by code_simp
  show ?thesis
    using zero_quota_raises [OF m, of 0 demo_remote demo_config] m v by simp
qed

subsection \<open>The validation gate\<close>

lemma validate_try_causes:
  "describe_instances rm = Inl e \<Longrightarrow> validate_try account rm = Inl e"
  "describe_instances rm = Inr ids \<Longrightarrow> instanceId account \<notin> set ids \<Longrightarrow>
     validate_try account rm = Inl (InstanceIdMissing (instanceId account))"
  by (simp_all add: validate_try_def)

lemma check_account_gate_closed:
  assumes "validate_try account rm = Inl err"
  shows "fst (check_account account cfg rm)
           = [Api DescribeInstances, Print (ValidationError err),
              Notify (ErrorNote (case accountName account of None \<Rightarrow> [] | Some n \<Rightarrow> n)
                        (instanceId account) err)
                (fst (send_notification
                        (ErrorNote (case accountName account of None \<Rightarrow> [] | Some n \<Rightarrow> n)
                           (instanceId account) err) cfg (deliver rm)))]"
    and "snd (check_account account cfg rm)
           = (case snd (send_notification
                          (ErrorNote (case accountName account of None \<Rightarrow> [] | Some n \<Rightarrow> n)
                             (instanceId account) err) cfg (deliver rm)) of
                Inl k \<Rightarrow> Inl k | Inr _ \<Rightarrow> Inr None)"
  using assms
  by (simp_all add: check_account_def validate_credentials_and_instance_def Let_def split_def
        split: sum.splits bool.splits)

text \<open>
  C5: when the validation of an account fails, because the query for the instances raises
  or because the account's instance id is not among the instances returned, the run does
  exactly this for the account: it calls the query, prints the error, and sends one error
  notification with the account name, the instance id and the error. It issues no mutating
  call and sends no toggle notification, it appends no record to the log, and the loop
  goes on with the remaining accounts.
\<close>

theorem validation_failure_skips:
  assumes "describe_instances rm = Inl err
           \<or> (\<exists>ids. describe_instances rm = Inr ids \<and> instanceId account \<notin> set ids
                     \<and> err = InstanceIdMissing (instanceId account))"
  shows "fst (check_account account cfg rm)
           = [Api DescribeInstances, Print (ValidationError err),
              Notify (ErrorNote (case accountName account of None \<Rightarrow> [] | Some n \<Rightarrow> n)
                        (instanceId account) err)
                (fst (send_notification
                        (ErrorNote (case accountName account of None \<Rightarrow> [] | Some n \<Rightarrow> n)
                           (instanceId account) err) cfg (deliver rm)))]
       \<and> error_notifications (fst (check_account account cfg rm)) = 1
       \<and> toggle_notifications (fst (check_account account cfg rm)) = 0
       \<and> revoke_calls (fst (check_account account cfg rm)) = 0
       \<and> authorize_calls (fst (check_account account cfg rm)) = 0
       \<and> (\<forall>l. snd (check_account account cfg rm) \<noteq> Inr (Some l))
       \<and> (snd (check_account account cfg rm) = Inr None \<longrightarrow>
            check_loop cfg ((account, rm) # accounts) logs
              = (fst (check_account account cfg rm) @ fst (check_loop cfg accounts logs),
                 snd (check_loop cfg accounts logs)))"
proof -
  from assms have v: "validate_try account rm = Inl err"
    by (auto simp add: validate_try_causes)
  note g = check_account_gate_closed [OF v, of cfg]
  have ev: "error_notifications (fst (check_account account cfg rm)) = 1
       \<and> toggle_notifications (fst (check_account account cfg rm)) = 0
       \<and> revoke_calls (fst (check_account account cfg rm)) = 0
       \<and> authorize_calls (fst (check_account account cfg rm)) = 0"
    by (simp add: g(1))
  have sk: "\<forall>l. snd (check_account account cfg rm) \<noteq> Inr (Some l)"
    by (simp add: g(2) split: sum.splits)
  have lp: "snd (check_account account cfg rm) = Inr None \<longrightarrow>
            check_loop cfg ((account, rm) # accounts) logs
              = (fst (check_account account cfg rm) @ fst (check_loop cfg accounts logs),
                 snd (check_loop cfg accounts logs))"
    by (cases "check_account account cfg rm") (simp add: split_def Let_def)
  show ?thesis using g(1) ev sk lp by blast
qed

theorem validation_failure_skips_witness:
  "describe_instances (demo_remote\<lparr>describe_instances := Inr [''i-0'']\<rparr>) = Inr [''i-0'']
   \<and> instanceId demo_account \<notin> set [''i-0'']
   \<and> fst (check_account demo_account demo_config
             (demo_remote\<lparr>describe_instances := Inr [''i-0'']\<rparr>))
       = [Api DescribeInstances, Print (ValidationError (InstanceIdMissing ''i-1'')),
          Notify (ErrorNote ''server'' ''i-1'' (InstanceIdMissing ''i-1''))
            [(Email, PyTrue), (Bark, PyFalse), (TG, PyTrue)]]
   \<and> snd (check_account demo_account demo_config
             (demo_remote\<lparr>describe_instances := Inr [''i-0'']\<rparr>)) = Inr None"
proof -
  let ?rm = "demo_remote\<lparr>describe_instances := Inr [''i-0'']\<rparr>"
  have d: "describe_instances ?rm = Inr [''i-0'']" by simp
  have a: "instanceId demo_account \<notin> set [''i-0'']" by code_simp
  have i: "instanceId demo_account = ''i-1''" by code_simp
  have n: "accountName demo_account = Some ''server''" by code_simp
  have s: "send_notification (ErrorNote ''server'' ''i-1'' (InstanceIdMissing ''i-1''))
             demo_config (deliver demo_remote)
           = ([(Email, PyTrue), (Bark, PyFalse), (TG, PyTrue)],
              Inr (SendFailed [(Email, PyTrue), (Bark, PyFalse), (TG, PyTrue)]))" by code_simp
  have v: "validate_try demo_account ?rm = Inl (InstanceIdMissing ''i-1'')" by code_simp
  have r: "snd (check_account demo_account demo_config ?rm) = Inr None"
    by (simp add: check_account_gate_closed(2) [OF v] n i s)
  have h: "describe_instances ?rm = Inl (InstanceIdMissing ''i-1'')
           \<or> (\<exists>ids. describe_instances ?rm = Inr ids \<and> instanceId demo_account \<notin> set ids
                     \<and> InstanceIdMissing ''i-1'' = InstanceIdMissing (instanceId demo_account))"
    using d a i by simp
  from validation_failure_skips [OF h, where cfg = demo_config and accounts = "[]" and logs = "[]"]
  have "fst (check_account demo_account demo_config ?rm)
       = [Api DescribeInstances, Print (ValidationError (InstanceIdMissing ''i-1'')),
          Notify (ErrorNote ''server'' ''i-1'' (InstanceIdMissing ''i-1''))
            [(Email, PyTrue), (Bark, PyFalse), (TG, PyTrue)]]"
    by (simp add: i n s)
  then show ?thesis using d a r by blast
qed

section \<open>The notification fanout\<close>

lemma scan_results_eq:
  "scan_results all items
     = (if list_all (\<lambda>item. snd item = PyTrue) items then SentTrue else SendFailed all)"
  by (induction items) auto

lemma channel_step_email:
  "channel_step (enableEmail cfg) [] Email out (rs, None)
     = (rs @ (if enableEmail cfg then [(Email, out)] else []), None)"
  by (simp add: channel_step_def)

lemma channel_step_bark:
  "keys_present cfg \<Longrightarrow>
   channel_step (enableBark cfg) [(''barkUrl'', barkUrl cfg)] Bark out (rs, None)
     = (rs @ (if enableBark cfg then [(Bark, out)] else []), None)"
  by (auto simp add: channel_step_def keys_present_def)

lemma channel_step_tg:
  "keys_present cfg \<Longrightarrow>
   channel_step (enableTG cfg)
     [(''tgBotToken'', tgBotToken cfg), (''tgChatId'', tgChatId cfg)] TG out (rs, None)
     = (rs @ (if enableTG cfg then [(TG, out)] else []), None)"
  by (auto simp add: channel_step_def keys_present_def)

lemma channel_step_webhook:
  "keys_present cfg \<Longrightarrow>
   channel_step (enableWebhook cfg)
     [(''webhookUrl'', webhookUrl cfg), (''webhookId'', webhookId cfg)] Webhook out (rs, None)
     = (rs @ (if enableWebhook cfg then [(Webhook, out)] else []), None)"
  by (auto simp add: channel_step_def keys_present_def)

lemma channel_step_qywx:
  "keys_present cfg \<Longrightarrow>
   channel_step (enableQywx cfg)
     [(''touser'', touser cfg), (''corpid'', corpid cfg), (''corpsecret'', corpsecret cfg),
      (''agentid'', agentid cfg), (''baseApiUrl'', baseApiUrl cfg), (''picUrl'', picUrl cfg)]
     Qywx out (rs, None)
     = (rs @ (if enableQywx cfg then [(Qywx, out)] else []), None)"
  by (auto simp add: channel_step_def keys_present_def)

lemma send_notification_results:
  assumes "keys_present cfg"
  shows "send_notification n cfg dlv
           = (map (\<lambda>ch. (ch, channel_outcome (dlv n) ch)) (enabled_channels cfg),
              Inr (scan_results
                     (map (\<lambda>ch. (ch, channel_outcome (dlv n) ch)) (enabled_channels cfg))
                     (map (\<lambda>ch. (ch, channel_outcome (dlv n) ch)) (enabled_channels cfg))))"
proof -
  have "send_notification n cfg dlv
          = (let rs = (if enableEmail cfg then [(Email, send_email_notification (smtp (dlv n)))] else [])
                 @ (if enableBark cfg then [(Bark, send_bark_notification (bark_get (dlv n)))] else [])
                 @ (if enableTG cfg then [(TG, send_tg_notification (tg_get (dlv n)))] else [])
                 @ (if enableWebhook cfg
                    then [(Webhook, send_webhook_notification (webhook_get (dlv n)))] else [])
                 @ (if enableQywx cfg then [(Qywx, send_qywx_notification (qywx_post (dlv n)))] else [])
             in (rs, Inr (scan_results rs rs)))"
    unfolding send_notification_def Let_def
    by (simp only: channel_step_email channel_step_bark [OF assms] channel_step_tg [OF assms]
          channel_step_webhook [OF assms] channel_step_qywx [OF assms] prod.case option.case
          append_Nil append_assoc)
  moreover have "map (\<lambda>ch. (ch, channel_outcome (dlv n) ch)) (enabled_channels cfg)
          = (if enableEmail cfg then [(Email, send_email_notification (smtp (dlv n)))] else [])
                 @ (if enableBark cfg then [(Bark, send_bark_notification (bark_get (dlv n)))] else [])
                 @ (if enableTG cfg then [(TG, send_tg_notification (tg_get (dlv n)))] else [])
                 @ (if enableWebhook cfg
                    then [(Webhook, send_webhook_notification (webhook_get (dlv n)))] else [])
                 @ (if enableQywx cfg then [(Qywx, send_qywx_notification (qywx_post (dlv n)))] else [])"
    by (simp add: enabled_channels_def channel_outcome_def)
  ultimately show ?thesis by (simp only: Let_def)
qed

text \<open>
  C4, as the specification states it, fails on the code: \<open>send_notification\<close> subscripts
  the keys of a channel before it calls the channel function, outside every \<open>try\<close>. With
  the mail, Bark and Telegram channels enabled and no \<open>barkUrl\<close>, the mail is sent, the
  subscript raises \<open>KeyError\<close>, the Telegram channel is not attempted and the fanout
  returns no value.
\<close>

theorem fanout_counterexample:
  "enabled_channels (demo_config\<lparr>barkUrl := None\<rparr>) = [Email, Bark, TG]
   \<and> send_notification (ErrorNote ''server'' ''i-1'' IndexError)
         (demo_config\<lparr>barkUrl := None\<rparr>) (deliver demo_remote)
       = ([(Email, PyTrue)], Inl (KeyError ''barkUrl''))"
  by code_simp

text \<open>
  C4, amended: for a configuration that holds the keys of every enabled channel, the
  fanout attempts every enabled channel, each with the outcome of its own transport
  whatever the others do; an exception raised inside a channel function is that channel's
  outcome (its text for the mail channel, false for the others); and the result is true if
  every attempted channel returned true, and otherwise the failure value that holds the
  outcome of every attempted channel.
\<close>

theorem fanout_attempts_every_channel:
  assumes "keys_present cfg"
  shows "fst (send_notification n cfg dlv)
           = map (\<lambda>ch. (ch, channel_outcome (dlv n) ch)) (enabled_channels cfg)
       \<and> snd (send_notification n cfg dlv)
           = Inr (if list_all (\<lambda>ch. channel_outcome (dlv n) ch = PyTrue) (enabled_channels cfg)
                  then SentTrue
                  else SendFailed (fst (send_notification n cfg dlv)))
       \<and> channel_outcome (t\<lparr>smtp := Inl s\<rparr>) Email = PyStr s
       \<and> channel_outcome (t\<lparr>bark_get := Inl s\<rparr>) Bark = PyFalse
       \<and> channel_outcome (t\<lparr>tg_get := Inl s\<rparr>) TG = PyFalse
       \<and> channel_outcome (t\<lparr>webhook_get := Inl s\<rparr>) Webhook = PyFalse
       \<and> channel_outcome (t\<lparr>qywx_post := Inl s\<rparr>) Qywx = PyFalse"
proof -
  note r = send_notification_results [OF assms, of n dlv]
  have "list_all (\<lambda>item. snd item = PyTrue)
          (map (\<lambda>ch. (ch, channel_outcome (dlv n) ch)) (enabled_channels cfg))
        = list_all (\<lambda>ch. channel_outcome (dlv n) ch = PyTrue) (enabled_channels cfg)"
    by (simp add: list_all_iff)
  then show ?thesis
    by (simp add: r scan_results_eq channel_outcome_def send_email_notification_def
          send_bark_notification_def send_tg_notification_def send_webhook_notification_def
          send_qywx_notification_def)
qed

theorem fanout_attempts_every_channel_witness:
  "keys_present demo_config
   \<and> enabled_channels demo_config = [Email, Bark, TG]
   \<and> bark_get demo_transports = Inl ''timed out''
   \<and> fst (send_notification (ErrorNote ''server'' ''i-1'' IndexError) demo_config
             (\<lambda>_. demo_transports))
       = [(Email, PyTrue), (Bark, PyFalse), (TG, PyTrue)]
   \<and> snd (send_notification (ErrorNote ''server'' ''i-1'' IndexError) demo_config
             (\<lambda>_. demo_transports))
       = Inr (SendFailed [(Email, PyTrue), (Bark, PyFalse), (TG, PyTrue)])"
proof -
  have k: "keys_present demo_config" by code_simp
  have c: "enabled_channels demo_config = [Email, Bark, TG]" by code_simp
  have b: "bark_get demo_transports = Inl ''timed out''" by code_simp
  have o: "channel_outcome demo_transports Email = PyTrue"
    "channel_outcome demo_transports Bark = PyFalse"
    "channel_outcome demo_transports TG = PyTrue" by code_simp+
  show ?thesis
    using fanout_attempts_every_channel [OF k, of "ErrorNote ''server'' ''i-1'' IndexError"
        "\<lambda>_. demo_transports"] k b
    by (simp add: c o)
qed

section \<open>The usage evaluator\<close>




text \<open>
  The roundings at work: 27.25 GB of a quota of 200 GB is 13.63 per cent (the quotient
  times 100 is a double just above 13.625), 593.71875 GB of 625 GB is 94.99 per cent, and
  \<open>2^53 + 1\<close> bytes are 8388608 GB.
\<close>

lemma usage_percentage_examples:
  "usage_percentage (109 / 4) 200 = Inr (nearest_double (1363 / 100))
   \<and> usage_percentage (18999 / 32) 625 = Inr (nearest_double (9499 / 100))
   \<and> usage_percentage 192 200 = Inr 96
   \<and> get_traffic (Inr [Some 9007199254740993]) = ([Api ListCdtInternetTraffic], 8388608)"
  by code_simp

section \<open>Failing queries\<close>

lemma channel_step_key_error:
  "snd (channel_step en keys ch out st) = Some e \<Longrightarrow>
   snd st = Some e \<or> (\<exists>key. e = KeyError key)"
  by (cases st) (auto simp add: channel_step_def split: option.splits if_splits)

lemma send_notification_key_error:
  assumes "snd (send_notification n cfg dlv) = Inl e"
  shows "\<exists>key. e = KeyError key"
proof -
  define s1 where "s1 = channel_step (enableEmail cfg) []
                 Email (send_email_notification (smtp (dlv n))) ([], None)"
  define s2 where "s2 = channel_step (enableBark cfg)
                 [(''barkUrl'', barkUrl cfg)]
                 Bark (send_bark_notification (bark_get (dlv n))) s1"
  define s3 where "s3 = channel_step (enableTG cfg)
                 [(''tgBotToken'', tgBotToken cfg), (''tgChatId'', tgChatId cfg)]
                 TG (send_tg_notification (tg_get (dlv n))) s2"
  define s4 where "s4 = channel_step (enableWebhook cfg)
                 [(''webhookUrl'', webhookUrl cfg), (''webhookId'', webhookId cfg)]
                 Webhook (send_webhook_notification (webhook_get (dlv n))) s3"
  define s5 where "s5 = channel_step (enableQywx cfg)
                 [(''touser'', touser cfg), (''corpid'', corpid cfg),
                  (''corpsecret'', corpsecret cfg), (''agentid'', agentid cfg),
                  (''baseApiUrl'', baseApiUrl cfg), (''picUrl'', picUrl cfg)]
                 Qywx (send_qywx_notification (qywx_post (dlv n))) s4"
  have "send_notification n cfg dlv
          = (case s5 of (results, Some e) \<Rightarrow> (results, Inl e)
                      | (results, None) \<Rightarrow> (results, Inr (scan_results results results)))"
    by (simp add: send_notification_def Let_def s1_def s2_def s3_def s4_def s5_def)
  with assms have "snd s5 = Some e"
    by (cases s5) (auto split: option.splits)
  then have "snd s4 = Some e \<or> (\<exists>key. e = KeyError key)"
    unfolding s5_def by (rule channel_step_key_error)
  moreover have "snd s4 = Some e \<Longrightarrow> snd s3 = Some e \<or> (\<exists>key. e = KeyError key)"
    unfolding s4_def by (rule channel_step_key_error)
  moreover have "snd s3 = Some e \<Longrightarrow> snd s2 = Some e \<or> (\<exists>key. e = KeyError key)"
    unfolding s3_def by (rule channel_step_key_error)
  moreover have "snd s2 = Some e \<Longrightarrow> snd s1 = Some e \<or> (\<exists>key. e = KeyError key)"
    unfolding s2_def by (rule channel_step_key_error)
  moreover have "snd s1 = Some e \<Longrightarrow> (\<exists>key. e = KeyError key)"
    using channel_step_key_error [of "enableEmail cfg" "[]" Email
        "send_email_notification (smtp (dlv n))" "([], None)" e]
    by (simp add: s1_def)
  ultimately show ?thesis by blast
qed

lemma notify_toggle_key_error:
  "snd (notify_toggle l cfg rm) = Inl e \<Longrightarrow> \<exists>key. e = KeyError key"
  by (auto simp add: notify_toggle_def Let_def split_def split: sum.splits
        dest: send_notification_key_error)

lemma check_account_key_error:
  assumes "snd (check_account account cfg rm) = Inl e"
  shows "\<exists>key. e = KeyError key"
  using assms
  by (auto simp add: check_account_def validate_credentials_and_instance_def Let_def split_def
        split: sum.splits bool.splits prod.splits dest: send_notification_key_error)

text \<open>
  C9: a traffic query that raises gives the traffic 0, and a security group query that
  raises gives the state "disabled"; each prints the error. Processing continues: the
  usage is then 0 (for a quota that is not zero), the rule counts as disabled, a validated
  account whose two queries raise still reaches the decision (which issues the authorize
  call), and no exception of a remote query leaves the processing of an account (only a
  \<open>KeyError\<close> of the notification configuration does).
\<close>

theorem remote_failures_degrade:
  "get_traffic (Inl e) = ([Api ListCdtInternetTraffic, Print (TrafficError e)], 0)
   \<and> is_security_group_rule_enabled g (Inl e)
       = ([Api DescribeSecurityGroupAttribute, Print (RuleCheckError e)], False)
   \<and> (list_cdt_traffic rm = Inl e \<and> maxTraffic account \<noteq> 0 \<longrightarrow>
        computed_usage account rm = Inr 0)
   \<and> (describe_sg_attribute rm = Inl e \<longrightarrow> \<not> observed_enabled rm)
   \<and> (validate_try account rm = Inr True \<and> list_cdt_traffic rm = Inl e
        \<and> maxTraffic account \<noteq> 0 \<and> describe_sg_attribute rm = Inl e' \<longrightarrow>
        authorize_calls (fst (check_account account cfg rm)) = 1
        \<and> Print (TrafficError e) \<in> set (fst (check_account account cfg rm))
        \<and> Print (RuleCheckError e') \<in> set (fst (check_account account cfg rm)))
   \<and> (\<forall>k. snd (check_account account cfg rm) = Inl k \<longrightarrow> (\<exists>key. k = KeyError key))"
proof -
  have a: "list_cdt_traffic rm = Inl e \<and> maxTraffic account \<noteq> 0 \<longrightarrow>
        computed_usage account rm = Inr 0"
    by (simp add: computed_usage_def usage_percentage_zero get_traffic_def)
  have b: "describe_sg_attribute rm = Inl e \<longrightarrow> \<not> observed_enabled rm"
    by (simp add: observed_enabled_def is_security_group_rule_enabled_def)
  have c: "validate_try account rm = Inr True \<and> list_cdt_traffic rm = Inl e
        \<and> maxTraffic account \<noteq> 0 \<and> describe_sg_attribute rm = Inl e' \<longrightarrow>
        authorize_calls (fst (check_account account cfg rm)) = 1
        \<and> Print (TrafficError e) \<in> set (fst (check_account account cfg rm))
        \<and> Print (RuleCheckError e') \<in> set (fst (check_account account cfg rm))"
  proof (intro impI, elim conjE)
    assume v: "validate_try account rm = Inr True" and t: "list_cdt_traffic rm = Inl e"
      and m: "maxTraffic account \<noteq> 0" and s: "describe_sg_attribute rm = Inl e'"
    have u: "computed_usage account rm = Inr 0"
      using t m by (simp add: computed_usage_def usage_percentage_zero get_traffic_def)
    have o: "\<not> observed_enabled rm"
      using s by (simp add: observed_enabled_def is_security_group_rule_enabled_def)
    have 1: "authorize_calls (fst (check_account account cfg rm)) = 1"
      using o by (simp add: check_account_counts [OF v] check_try_counts [OF u])
    have 2: "Print (TrafficError e) \<in> set (fst (check_try account cfg rm))
           \<and> Print (RuleCheckError e') \<in> set (fst (check_try account cfg rm))"
      using t m s
      by (simp add: check_try_def usage_percentage_zero get_traffic_def
            is_security_group_rule_enabled_def Let_def split_def)
    have 3: "set (fst (check_try account cfg rm)) \<subseteq> set (fst (check_account account cfg rm))"
      by (auto simp add: check_account_def validated_gate [OF v] Let_def split_def
            split: sum.splits prod.splits)
    show "authorize_calls (fst (check_account account cfg rm)) = 1
        \<and> Print (TrafficError e) \<in> set (fst (check_account account cfg rm))
        \<and> Print (RuleCheckError e') \<in> set (fst (check_account account cfg rm))"
      using 1 2 3 by blast
  qed
  have d: "\<forall>k. snd (check_account account cfg rm) = Inl k \<longrightarrow> (\<exists>key. k = KeyError key)"
    using check_account_key_error by blast
  show ?thesis
    using a b c d
    by (simp add: get_traffic_def is_security_group_rule_enabled_def)
qed

theorem remote_failures_degrade_witness:
  "validate_try demo_account demo_remote_degraded = Inr True
   \<and> list_cdt_traffic demo_remote_degraded = Inl (Raised ''timeout'')
   \<and> maxTraffic demo_account \<noteq> 0
   \<and> describe_sg_attribute demo_remote_degraded = Inl (Raised ''throttled'')
   \<and> computed_usage demo_account demo_remote_degraded = Inr 0
   \<and> \<not> observed_enabled demo_remote_degraded
   \<and> authorize_calls (fst (check_account demo_account demo_config demo_remote_degraded)) = 1"
proof -
  have v: "validate_try demo_account demo_remote_degraded = Inr True" by code_simp
  have t: "list_cdt_traffic demo_remote_degraded = Inl (Raised ''timeout'')" by code_simp
  have m: "maxTraffic demo_account \<noteq> 0" by code_simp
  have s: "describe_sg_attribute demo_remote_degraded = Inl (Raised ''throttled'')" by code_simp
  show ?thesis
    using remote_failures_degrade [of "Raised ''timeout''" None demo_remote_degraded
        demo_account "Raised ''throttled''" demo_config]
      remote_failures_degrade [of "Raised ''throttled''" None demo_remote_degraded
        demo_account "Raised ''throttled''" demo_config] v t m s
    by simp
qed

section \<open>Failing mutations\<close>

lemma notifications_simps [simp]:
  "notifications [] = []"
  "notifications (ev # evs) = (if is_notification ev then ev # notifications evs else notifications evs)"
  "notifications (xs @ ys) = notifications xs @ notifications ys"
  by (simp_all add: notifications_def)

lemma helpers_send_nothing [simp]:
  "notifications (fst (get_traffic a)) = []"
  "notifications (fst (get_security_group_id b)) = []"
  "notifications (fst (get_instance_details c)) = []"
  "notifications (fst (is_security_group_rule_enabled g d)) = []"
  "notifications (disable_security_group_rule g x) = []"
  "notifications (enable_security_group_rule g x) = []"
  by (simp_all add: get_traffic_def get_security_group_id_def get_instance_details_def
        is_security_group_rule_enabled_def disable_security_group_rule_def
        enable_security_group_rule_def Let_def split: sum.splits list.splits)

lemma notify_toggle_mutation [simp]:
  "notify_toggle l cfg (rm\<lparr>revoke_sg := x, authorize_sg := y\<rparr>) = notify_toggle l cfg rm"
  by (simp add: notify_toggle_def)

lemma check_try_mutation:
  "snd (check_try account cfg (rm\<lparr>revoke_sg := x, authorize_sg := y\<rparr>))
     = snd (check_try account cfg rm)"
  "notifications (fst (check_try account cfg (rm\<lparr>revoke_sg := x, authorize_sg := y\<rparr>)))
     = notifications (fst (check_try account cfg rm))"
  by (simp_all add: check_try_def Let_def split_def split: sum.splits)

lemma check_account_mutation:
  "snd (check_account account cfg (rm\<lparr>revoke_sg := x, authorize_sg := y\<rparr>))
     = snd (check_account account cfg rm)"
  "notifications (fst (check_account account cfg (rm\<lparr>revoke_sg := x, authorize_sg := y\<rparr>)))
     = notifications (fst (check_account account cfg rm))"
proof -
  let ?rm = "rm\<lparr>revoke_sg := x, authorize_sg := y\<rparr>"
  have v: "validate_credentials_and_instance account cfg ?rm
             = validate_credentials_and_instance account cfg rm"
    by (simp add: validate_credentials_and_instance_def validate_try_def Let_def split_def
          split: sum.splits)
  have n: "notifications (fst (validate_credentials_and_instance account cfg rm))
             = notifications (fst (validate_credentials_and_instance account cfg rm))" ..
  obtain ev1 r1 where c1: "check_try account cfg rm = (ev1, r1)" by (cases "check_try account cfg rm")
  obtain ev2 r2 where c2: "check_try account cfg ?rm = (ev2, r2)" by (cases "check_try account cfg ?rm")
  have r: "r2 = r1" using check_try_mutation(1) [where account = account and cfg = cfg and rm = rm and x = x and y = y] c1 c2 by simp
  have e: "notifications ev2 = notifications ev1"
    using check_try_mutation(2) [where account = account and cfg = cfg and rm = rm and x = x and y = y] c1 c2 by simp
  show "snd (check_account account cfg ?rm) = snd (check_account account cfg rm)"
    by (simp add: check_account_def v c1 c2 r Let_def split_def
          split: prod.splits sum.splits bool.splits)
  show "notifications (fst (check_account account cfg ?rm))
          = notifications (fst (check_account account cfg rm))"
    by (simp add: check_account_def v c1 c2 r e Let_def split_def
          split: prod.splits sum.splits bool.splits)
qed

lemma notify_toggle_status:
  "snd (notify_toggle l cfg rm) = Inr l' \<Longrightarrow> log_sg_status l' = log_sg_status l"
  by (auto simp add: notify_toggle_def Let_def split_def split: sum.splits)

lemma notify_toggle_events:
  "fst (notify_toggle l cfg rm)
     = [Notify (ToggleNote l) (fst (send_notification (ToggleNote l) cfg (deliver rm)))]"
  by (simp add: notify_toggle_def Let_def split_def)

lemma check_try_status:
  assumes "computed_usage account rm = Inr u"
    and "reconcile_spec (observed_enabled rm) u \<noteq> NoAction"
  shows "\<forall>l. snd (check_try account cfg rm) = Inr l \<longrightarrow>
           log_sg_status l = Some (if 95 \<le> u then RuleDisabledNow else RuleRestoredNow)"
    and "\<forall>l res. Notify (ToggleNote l) res \<in> set (fst (check_try account cfg rm)) \<longrightarrow>
           log_sg_status l = Some (if 95 \<le> u then RuleDisabledNow else RuleRestoredNow)"
  using assms
  by (auto simp add: check_try_def computed_usage_def observed_enabled_def reconcile_spec_def
        Let_def split_def notify_toggle_events get_traffic_def get_security_group_id_def
        get_instance_details_def is_security_group_rule_enabled_def
        disable_security_group_rule_def enable_security_group_rule_def
        dest: notify_toggle_status split: if_splits sum.splits list.splits)

lemma check_account_of_try:
  assumes "validate_try account rm = Inr True"
  shows "snd (check_account account cfg rm) = Inr (Some l) \<Longrightarrow>
           snd (check_try account cfg rm) = Inr l"
    and "Notify (ToggleNote l) res \<in> set (fst (check_account account cfg rm)) \<Longrightarrow>
           Notify (ToggleNote l) res \<in> set (fst (check_try account cfg rm))"
  by (auto simp add: check_account_def validated_gate [OF assms] Let_def split_def
        split: sum.splits prod.splits)

lemma notify_toggle_returns:
  "keys_present cfg \<Longrightarrow> \<exists>r. snd (notify_toggle l cfg rm) = Inr (l\<lparr>log_notify := Some r\<rparr>)"
  by (auto simp add: notify_toggle_def send_notification_results Let_def)

lemma check_try_appends:
  assumes "computed_usage account rm = Inr u"
    and "reconcile_spec (observed_enabled rm) u \<noteq> NoAction"
    and "keys_present cfg"
  shows "\<exists>l. snd (check_try account cfg rm) = Inr l
             \<and> log_percentage l = u \<and> log_reached95 l = (95 \<le> u)"
proof -
  let ?t = "snd (get_traffic (list_cdt_traffic rm))"
  let ?d = "snd (get_instance_details (describe_instance_details rm))"
  let ?l = "\<lparr>log_instanceId = instanceId account,
            log_server = account_name_of account,
            log_total = maxTraffic account,
            log_used = py_round2 ?t,
            log_percentage = u,
            log_region = regionId account,
            log_expiry = expiry ?d,
            log_public_ip = public_ip ?d,
            log_reached95 = (95 \<le> u),
            log_sg_status = None,
            log_notify = None\<rparr>"
  from assms(2) consider (disable) "95 \<le> u" "observed_enabled rm"
    | (enable) "\<not> 95 \<le> u" "\<not> observed_enabled rm"
    by (auto simp add: reconcile_spec_def split: if_splits)
  then show ?thesis
  proof cases
    case disable
    obtain r where r: "snd (notify_toggle (?l\<lparr>log_sg_status := Some RuleDisabledNow\<rparr>) cfg rm)
                         = Inr (?l\<lparr>log_sg_status := Some RuleDisabledNow, log_notify := Some r\<rparr>)"
      using notify_toggle_returns [OF assms(3)] by blast
    have "snd (check_try account cfg rm)
            = Inr (?l\<lparr>log_sg_status := Some RuleDisabledNow, log_notify := Some r\<rparr>)"
      using assms(1) disable r
      by (simp add: check_try_def computed_usage_def observed_enabled_def Let_def split_def)
    then show ?thesis by simp
  next
    case enable
    obtain r where r: "snd (notify_toggle (?l\<lparr>log_sg_status := Some RuleRestoredNow\<rparr>) cfg rm)
                         = Inr (?l\<lparr>log_sg_status := Some RuleRestoredNow, log_notify := Some r\<rparr>)"
      using notify_toggle_returns [OF assms(3)] by blast
    have "snd (check_try account cfg rm)
            = Inr (?l\<lparr>log_sg_status := Some RuleRestoredNow, log_notify := Some r\<rparr>)"
      using assms(1) enable r
      by (simp add: check_try_def computed_usage_def observed_enabled_def Let_def split_def)
    then show ?thesis by simp
  qed
qed

lemma check_account_appends:
  assumes "validate_try account rm = Inr True"
  shows "snd (check_try account cfg rm) = Inr l \<Longrightarrow>
           snd (check_account account cfg rm) = Inr (Some l)"
  by (simp add: check_account_def validated_gate [OF assms] split_def split: sum.splits)

text \<open>
  C10: whenever the check of a validated account decides on \<open>Disable\<close> or \<open>Enable\<close>,
  the record it appends to the log and the record it notifies carry the target state as
  achieved ("rule disabled" from 95 per cent on, "rule restored" below), and the toggle
  notification is sent, whatever the revoke or authorize call did: with any other outcomes
  \<open>x\<close> and \<open>y\<close> of the two calls the result of the account and its notifications are
  the same. With a notification configuration that holds the keys of its enabled channels
  a record is appended, with the target state, the usage and the threshold flag.
\<close>

theorem mutation_outcome_is_not_reported:
  assumes "validate_try account rm = Inr True"
    and "computed_usage account rm = Inr u"
    and "reconcile_spec (observed_enabled rm) u \<noteq> NoAction"
  shows "snd (check_account account cfg (rm\<lparr>revoke_sg := x, authorize_sg := y\<rparr>))
           = snd (check_account account cfg rm)
       \<and> notifications (fst (check_account account cfg (rm\<lparr>revoke_sg := x, authorize_sg := y\<rparr>)))
           = notifications (fst (check_account account cfg rm))
       \<and> toggle_notifications (fst (check_account account cfg rm)) = 1
       \<and> (\<forall>l. snd (check_account account cfg rm) = Inr (Some l) \<longrightarrow>
             log_sg_status l = Some (if 95 \<le> u then RuleDisabledNow else RuleRestoredNow))
       \<and> (\<forall>l res. Notify (ToggleNote l) res \<in> set (fst (check_account account cfg rm)) \<longrightarrow>
             log_sg_status l = Some (if 95 \<le> u then RuleDisabledNow else RuleRestoredNow))
       \<and> (keys_present cfg \<longrightarrow>
             (\<exists>l. snd (check_account account cfg rm) = Inr (Some l)
                   \<and> log_sg_status l
                       = Some (if 95 \<le> u then RuleDisabledNow else RuleRestoredNow)
                   \<and> log_percentage l = u \<and> log_reached95 l = (95 \<le> u)))"
proof -
  have t: "toggle_notifications (fst (check_account account cfg rm)) = 1"
    using assms(3)
    by (simp add: check_account_counts [OF assms(1)] check_try_counts [OF assms(2)]
          reconcile_spec_def split: if_splits)
  note s = check_try_status [OF assms(2) assms(3), where cfg = cfg]
  have l: "\<forall>l. snd (check_account account cfg rm) = Inr (Some l) \<longrightarrow>
             log_sg_status l = Some (if 95 \<le> u then RuleDisabledNow else RuleRestoredNow)"
    using s(1) check_account_of_try(1) [OF assms(1)] by blast
  have n: "\<forall>l res. Notify (ToggleNote l) res \<in> set (fst (check_account account cfg rm)) \<longrightarrow>
             log_sg_status l = Some (if 95 \<le> u then RuleDisabledNow else RuleRestoredNow)"
    using s(2) check_account_of_try(2) [OF assms(1)] by blast
  have a: "keys_present cfg \<longrightarrow>
             (\<exists>l. snd (check_account account cfg rm) = Inr (Some l)
                   \<and> log_sg_status l
                       = Some (if 95 \<le> u then RuleDisabledNow else RuleRestoredNow)
                   \<and> log_percentage l = u \<and> log_reached95 l = (95 \<le> u))"
  proof
    assume "keys_present cfg"
    from check_try_appends [OF assms(2) assms(3) this]
    obtain l' where l': "snd (check_try account cfg rm) = Inr l'"
      "log_percentage l' = u" "log_reached95 l' = (95 \<le> u)" by blast
    have c: "snd (check_account account cfg rm) = Inr (Some l')"
      using l'(1) by (rule check_account_appends [OF assms(1)])
    with l have "log_sg_status l'
                   = Some (if 95 \<le> u then RuleDisabledNow else RuleRestoredNow)" by blast
    with c l'(2) l'(3)
    show "\<exists>l. snd (check_account account cfg rm) = Inr (Some l)
                   \<and> log_sg_status l
                       = Some (if 95 \<le> u then RuleDisabledNow else RuleRestoredNow)
                   \<and> log_percentage l = u \<and> log_reached95 l = (95 \<le> u)" by blast
  qed
  show ?thesis
    using t l n a
      check_account_mutation [where account = account and cfg = cfg and rm = rm and x = x and y = y]
    by blast
qed

theorem mutation_outcome_is_not_reported_witness:
  "validate_try demo_account demo_remote = Inr True
   \<and> computed_usage demo_account demo_remote = Inr 96
   \<and> reconcile_spec (observed_enabled demo_remote) 96 = Disable
   \<and> revoke_sg demo_remote = Inl (Raised ''Forbidden'')
   \<and> snd (check_account demo_account demo_config
             (demo_remote\<lparr>revoke_sg := Inr (), authorize_sg := Inr ()\<rparr>))
       = snd (check_account demo_account demo_config demo_remote)
   \<and> toggle_notifications (fst (check_account demo_account demo_config demo_remote)) = 1
   \<and> keys_present demo_config
   \<and> (\<exists>l. snd (check_account demo_account demo_config demo_remote) = Inr (Some l)
            \<and> log_sg_status l = Some RuleDisabledNow
            \<and> log_percentage l = 96 \<and> log_reached95 l)"
proof -
  have v: "validate_try demo_account demo_remote = Inr True" by code_simp
  have u: "computed_usage demo_account demo_remote = Inr 96" by code_simp
  have d: "reconcile_spec (observed_enabled demo_remote) 96 = Disable" by code_simp
  have a: "reconcile_spec (observed_enabled demo_remote) 96 \<noteq> NoAction" using d by simp
  have f: "revoke_sg demo_remote = Inl (Raised ''Forbidden'')" by code_simp
  have k: "keys_present demo_config" by code_simp
  note m = mutation_outcome_is_not_reported [OF v u a, where cfg = demo_config
      and x = "Inr ()" and y = "Inr ()"]
  from m k have "\<exists>l. snd (check_account demo_account demo_config demo_remote) = Inr (Some l)
            \<and> log_sg_status l = Some RuleDisabledNow
            \<and> log_percentage l = 96 \<and> log_reached95 l"
    by simp
  with m v u d f k show ?thesis by blast
qed

end
